theory Spec2Isabelle
  imports Main "HOL-Library.Word" "HOL-Library.Monad_Syntax" "HOL-Library.Signed_Division"
begin

unbundle bit_operations_syntax

section \<open>IPL3 stage 2 (flat binary loader) and stage 3 (cleanup)\<close>

text \<open>
  The two stages talk to the machine only through volatile loads and stores of
  memory-mapped registers and through the helpers of \<^verbatim>\<open>minidragon.h\<close>. A run is
  therefore modelled as the list of events it performs, in program order. The values the
  hardware answers to the volatile loads are the input of a run: they are taken, one per
  load, from a list of pending answers. A polling loop that is still polling when the
  answers are used up has not returned: the run is \<open>None\<close>.

  All arithmetic is 32-bit. \<^verbatim>\<open>int memsize\<close> is kept as the 32-bit word that was loaded.
  \<^verbatim>\<open>memsize - TOTAL_RESERVED_SIZE\<close> is a signed subtraction, which C leaves undefined
  when it overflows (for the words \<open>0x80000000\<close> to \<open>0x80007FFF\<close>); it is taken as the
  wrapping subtraction of the machine, whose result is what is stored to the 32-bit
  register. \<^verbatim>\<open>0x80000000 + memsize - 0x10\<close> is unsigned, as its first constant is.

  The helpers of \<^verbatim>\<open>minidragon.h\<close> are not among the sources: a call of one is a single
  event, and it returns.
\<close>

type_synonym u32 = "32 word"

text \<open>cleanup.c is compiled either without or with \<^verbatim>\<open>COMPAT\<close> defined.\<close>

datatype variant = Normal | Compat

text \<open>
  The places a volatile access can go to: a literal address, or one of the register
  macros of \<^verbatim>\<open>minidragon.h\<close> (not among the sources, so the registers are kept by name).
\<close>

datatype loc =
    Addr u32
  | PI_STATUS | PI_DRAM_ADDR | PI_CART_ADDR | PI_WR_LEN
  | SP_RSP_ADDR | SP_DRAM_ADDR | SP_RD_LEN | SP_WR_LEN | SP_DMA_FULL | SP_DMA_BUSY

text \<open>
  \<open>Si_write\<close>, \<open>Si_wait\<close>, \<open>Cop0_clear_cache\<close> and \<open>Rcp_reset\<close> are the calls of the
  helpers \<^verbatim>\<open>si_write\<close>, \<open>si_wait\<close>, \<open>cop0_clear_cache\<close> and \<open>rcp_reset\<close> of
  \<^verbatim>\<open>minidragon.h\<close>; \<open>Move_sp\<close> is the \<^verbatim>\<open>move $sp, %0\<close> instruction and \<open>Goto\<close> the
  final \<^verbatim>\<open>goto *(void*)entrypoint\<close>.
\<close>

datatype event =
    Load loc u32
  | Store loc u32
  | Si_write u32 u32
  | Si_wait
  | Cop0_clear_cache
  | Rcp_reset
  | Move_sp u32
  | Goto u32

record world =
  pending :: "u32 list"
  trace :: "event list"

text \<open>The two status bits of \<^verbatim>\<open>PI_STATUS\<close> are macros of \<^verbatim>\<open>minidragon.h\<close>: parameters.\<close>

record pi_bits =
  PI_STATUS_DMA_BUSY :: u32
  PI_STATUS_IO_BUSY :: u32

subsection \<open>loader.h\<close>

definition LOADER_SIZE :: int where
  "LOADER_SIZE = 32 * 1024"

definition TOTAL_RESERVED_SIZE :: int where
  "TOTAL_RESERVED_SIZE = LOADER_SIZE"

subsection \<open>Volatile accesses and calls\<close>

definition emit :: "event \<Rightarrow> world \<Rightarrow> world" where
  "emit e w = w\<lparr>trace := trace w @ [e]\<rparr>"

definition volatile_load :: "loc \<Rightarrow> world \<Rightarrow> (u32 \<times> world) option" where
  "volatile_load l w =
     (case pending w of
        [] \<Rightarrow> None
      | x # xs \<Rightarrow> Some (x, \<lparr>pending = xs, trace = trace w @ [Load l x]\<rparr>))"

definition volatile_store :: "loc \<Rightarrow> u32 \<Rightarrow> world \<Rightarrow> world" where
  "volatile_store l x w = emit (Store l x) w"

text \<open>\<^verbatim>\<open>while (*l is busy) {}\<close>: load until the value loaded is not busy.\<close>

function while_busy :: "loc \<Rightarrow> (u32 \<Rightarrow> bool) \<Rightarrow> world \<Rightarrow> world option" where
  "while_busy l busy w =
     (case volatile_load l w of
        None \<Rightarrow> None
      | Some (x, w') \<Rightarrow> if busy x then while_busy l busy w' else Some w')"
  by pat_completeness auto
termination
  by (relation "measure (\<lambda>(l, busy, w). length (pending w))")
     (auto simp: volatile_load_def split: list.splits)

declare while_busy.simps [simp del]

subsection \<open>loader\_compat.c\<close>

definition io_read32 :: "u32 \<Rightarrow> world \<Rightarrow> (u32 \<times> world) option" where
  "io_read32 vaddrx w = volatile_load (Addr (vaddrx OR 0xA0000000)) w"

definition pi_busy :: "pi_bits \<Rightarrow> u32 \<Rightarrow> bool" where
  "pi_busy c status \<longleftrightarrow> status AND (PI_STATUS_DMA_BUSY c OR PI_STATUS_IO_BUSY c) \<noteq> 0"

definition pi_read_async :: "pi_bits \<Rightarrow> u32 \<Rightarrow> u32 \<Rightarrow> u32 \<Rightarrow> world \<Rightarrow> world option" where
  "pi_read_async c dram_addr cart_addr len w = do {
     w \<leftarrow> while_busy PI_STATUS (pi_busy c) w;
     let w = volatile_store PI_DRAM_ADDR dram_addr w;
     let w = volatile_store PI_CART_ADDR cart_addr w;
     let w = volatile_store PI_WR_LEN (len - 1) w;
     Some w
   }"

definition pi_wait :: "pi_bits \<Rightarrow> world \<Rightarrow> world option" where
  "pi_wait c w = while_busy PI_STATUS (pi_busy c) w"

subsection \<open>cleanup.c\<close>

definition pif_terminate_boot :: "world \<Rightarrow> world" where
  "pif_terminate_boot w = emit (Si_write 0x7FC 0x8) w"

text \<open>
  \<open>stage3_gen\<close> is the body of \<^verbatim>\<open>stage3\<close> for a value \<open>trs\<close> of the macro
  \<^verbatim>\<open>TOTAL_RESERVED_SIZE\<close> and a variant \<open>v\<close>.
\<close>

definition stage3_gen :: "int \<Rightarrow> variant \<Rightarrow> u32 \<Rightarrow> world \<Rightarrow> world option" where
  "stage3_gen trs v entrypoint w = do {
     let w = (case v of Normal \<Rightarrow> pif_terminate_boot w | Compat \<Rightarrow> w);
     (memsize, w) \<leftarrow>
       volatile_load (Addr (case v of Normal \<Rightarrow> 0xA4000000 | Compat \<Rightarrow> 0x80000318)) w;
     let w = emit Cop0_clear_cache w;
     w \<leftarrow> while_busy SP_DMA_FULL (\<lambda>x. x \<noteq> 0) w;
     let w = volatile_store SP_RSP_ADDR 0xA4001000 w;
     let w = volatile_store SP_DRAM_ADDR (memsize - word_of_int trs) w;
     let w = volatile_store SP_WR_LEN
               (word_of_int (push_bit 12 (drop_bit 10 trs - 1) OR (1024 - 1))) w;
     w \<leftarrow> while_busy SP_DMA_FULL (\<lambda>x. x \<noteq> 0) w;
     let w = volatile_store SP_DRAM_ADDR 0x00802000 w;
     let w = (case v of
                Normal \<Rightarrow>
                  emit Si_wait
                    (volatile_store SP_RD_LEN (4096 - 16 - 1)
                      (volatile_store SP_RSP_ADDR 0xA4000010 w))
              | Compat \<Rightarrow>
                  volatile_store SP_RD_LEN (4096 - 1)
                    (volatile_store SP_RSP_ADDR 0xA4000000 w));
     w \<leftarrow> while_busy SP_DMA_BUSY (\<lambda>x. x \<noteq> 0) w;
     let w = (case v of
                Normal \<Rightarrow> emit (Move_sp (0x80000000 + memsize - 0x10)) w
              | Compat \<Rightarrow> w);
     Some (emit (Goto entrypoint) w)
   }"

definition stage3 :: "variant \<Rightarrow> u32 \<Rightarrow> world \<Rightarrow> world option" where
  "stage3 = stage3_gen TOTAL_RESERVED_SIZE"

text \<open>
  \<^verbatim>\<open>stage2\<close> of loader\_compat.c, linked with \<^verbatim>\<open>stage3\<close> of variant \<open>v\<close>: it is the
  only loader among the sources, and nothing in it depends on \<^verbatim>\<open>COMPAT\<close>. The local
  \<^verbatim>\<open>size\<close> is \<open>sz\<close> here. The bound is unsigned 32-bit, as \<^verbatim>\<open>entrypoint\<close> is.
\<close>

definition stage2 :: "pi_bits \<Rightarrow> variant \<Rightarrow> world \<Rightarrow> world option" where
  "stage2 c v w = do {
     (entrypoint, w) \<leftarrow> io_read32 0x10000008 w;
     (sz, w) \<leftarrow> io_read32 0x10000010 w;
     let sz = (if sz = 0 \<or>
                  sz > push_bit 20 8 - (entrypoint AND 0x1FFFFFFF)
                         - word_of_int TOTAL_RESERVED_SIZE
               then push_bit 20 1 else sz);
     w \<leftarrow> pi_read_async c entrypoint 0x10001000 sz w;
     w \<leftarrow> pi_wait c w;
     let w = emit Rcp_reset w;
     stage3 v entrypoint w
   }"

text \<open>The events of a whole run of a program on the answers \<open>resp\<close>.\<close>

definition run :: "(world \<Rightarrow> world option) \<Rightarrow> u32 list \<Rightarrow> event list option" where
  "run prog resp = map_option trace (prog \<lparr>pending = resp, trace = []\<rparr>)"


text \<open>
  \<^verbatim>\<open>_Static_assert((TOTAL_RESERVED_SIZE % 1024) == 0, ...)\<close> is checked when cleanup.c is
  compiled: for a value \<open>trs\<close> of the macro the build gives either the diagnostic or the
  function.
\<close>

definition compile_cleanup :: "int \<Rightarrow> variant \<Rightarrow> string + (u32 \<Rightarrow> world \<Rightarrow> world option)" where
  "compile_cleanup trs v =
     (if trs smod 1024 = 0 then Inr (stage3_gen trs v)
      else Inl ''TOTAL_RESERVED_SIZE must be multiple of 1024'')"

subsection \<open>The events of a run, written out\<close>

text \<open>The loads of one polling loop: the busy answers \<open>bs\<close>, then the answer \<open>x\<close> that ends it.\<close>

definition polls :: "loc \<Rightarrow> u32 list \<Rightarrow> u32 \<Rightarrow> event list" where
  "polls l bs x = map (Load l) bs @ [Load l x]"

definition stage3_events ::
  "int \<Rightarrow> variant \<Rightarrow> u32 \<Rightarrow> u32 \<Rightarrow> u32 list \<Rightarrow> u32 list \<Rightarrow> u32 list \<Rightarrow> event list" where
  "stage3_events trs v entrypoint memsize f1 f2 g =
     (case v of Normal \<Rightarrow> [Si_write 0x7FC 0x8] | Compat \<Rightarrow> []) @
     [Load (Addr (case v of Normal \<Rightarrow> 0xA4000000 | Compat \<Rightarrow> 0x80000318)) memsize,
      Cop0_clear_cache] @
     polls SP_DMA_FULL f1 0 @
     [Store SP_RSP_ADDR 0xA4001000,
      Store SP_DRAM_ADDR (memsize - word_of_int trs),
      Store SP_WR_LEN (word_of_int (push_bit 12 (drop_bit 10 trs - 1) OR 1023))] @
     polls SP_DMA_FULL f2 0 @
     [Store SP_DRAM_ADDR 0x00802000] @
     (case v of
        Normal \<Rightarrow> [Store SP_RSP_ADDR 0xA4000010, Store SP_RD_LEN 4079, Si_wait]
      | Compat \<Rightarrow> [Store SP_RSP_ADDR 0xA4000000, Store SP_RD_LEN 4095]) @
     polls SP_DMA_BUSY g 0 @
     (case v of Normal \<Rightarrow> [Move_sp (0x80000000 + memsize - 0x10)] | Compat \<Rightarrow> []) @
     [Goto entrypoint]"

definition stage2_events ::
  "pi_bits \<Rightarrow> variant \<Rightarrow> u32 \<Rightarrow> u32 \<Rightarrow> u32 list \<Rightarrow> u32 \<Rightarrow> u32 list \<Rightarrow> u32 \<Rightarrow> event list" where
  "stage2_events c v entrypoint sz b1 i1 b2 i2 =
     [Load (Addr 0xB0000008) entrypoint, Load (Addr 0xB0000010) sz] @
     polls PI_STATUS b1 i1 @
     [Store PI_DRAM_ADDR entrypoint,
      Store PI_CART_ADDR 0x10001000,
      Store PI_WR_LEN
        ((if sz = 0 \<or> sz > 0x800000 - (entrypoint AND 0x1FFFFFFF) - 0x8000
          then 0x100000 else sz) - 1)] @
     polls PI_STATUS b2 i2 @
     [Rcp_reset]"

subsection \<open>Reading a trace\<close>

fun is_Load :: "event \<Rightarrow> bool" where
  "is_Load (Load l x) = True"
| "is_Load _ = False"

fun is_Si_write :: "event \<Rightarrow> bool" where
  "is_Si_write (Si_write a x) = True"
| "is_Si_write _ = False"

fun is_Move_sp :: "event \<Rightarrow> bool" where
  "is_Move_sp (Move_sp x) = True"
| "is_Move_sp _ = False"

text \<open>What a run does, apart from what it reads: its events without the loads.\<close>

definition operations :: "event list \<Rightarrow> event list" where
  "operations t = filter (\<lambda>e. \<not> is_Load e) t"

text \<open>
  The cartridge-bus transfers of a trace. As \<^verbatim>\<open>pi_read_async\<close> programs the engine, the
  store to \<^verbatim>\<open>PI_WR_LEN\<close> of the length minus one starts a transfer to the RAM address
  and from the cartridge address stored last. A transfer is (RAM address, cartridge
  address, length).
\<close>

fun pi_descriptors :: "u32 \<times> u32 \<Rightarrow> event list \<Rightarrow> (u32 \<times> u32 \<times> u32) list" where
  "pi_descriptors (d, a) [] = []"
| "pi_descriptors (d, a) (Store l x # es) =
     (if l = PI_DRAM_ADDR then pi_descriptors (x, a) es
      else if l = PI_CART_ADDR then pi_descriptors (d, x) es
      else if l = PI_WR_LEN then (d, a, x + 1) # pi_descriptors (d, a) es
      else pi_descriptors (d, a) es)"
| "pi_descriptors (d, a) (_ # es) = pi_descriptors (d, a) es"

definition pi_transfers :: "event list \<Rightarrow> (u32 \<times> u32 \<times> u32) list" where
  "pi_transfers t = pi_descriptors (0, 0) t"

text \<open>
  The two DMA engines the code drives by registers. A descriptor is issued to an engine by
  the store to one of its length registers.
\<close>

datatype engine = Cartridge_bus | Coprocessor_bus



text \<open>
  An engine reports that it takes a descriptor: as \<open>reports_idle\<close> for the cartridge bus;
  for the coprocessor bus \<^verbatim>\<open>SP_DMA_FULL\<close> is read as zero.
\<close>

fun reports_free :: "pi_bits \<Rightarrow> event \<Rightarrow> engine \<Rightarrow> bool" where
  "reports_free c (Load l x) Cartridge_bus = (l = PI_STATUS \<and> \<not> pi_busy c x)"
| "reports_free c (Load l x) Coprocessor_bus = (l = SP_DMA_FULL \<and> x = 0)"
| "reports_free c _ g = False"



subsection \<open>The engines behind the registers\<close>

text \<open>
  Modelled from the spec: the coprocessor-bus engine's reading of a length control word,
  which is hardware and not part of the sources. The spec gives the word as
  (whole 1024-byte blocks, remainder minus one): the blocks above bit 12, the remainder
  minus one in the low 12 bits.
\<close>

definition dma_length :: "u32 \<Rightarrow> nat" where
  "dma_length cw = 1024 * unat (drop_bit 12 cw) + (unat (cw AND 0xFFF) + 1)"

text \<open>
  Modelled from the spec: \<^verbatim>\<open>scratch_clear_dma\<close> copies \<open>length\<close> bytes from a source that
  holds the clear value \<open>z\<close> in every byte to the destination. A store to
  \<^verbatim>\<open>SP_WR_LEN\<close> has RAM as its destination, at the address stored last in
  \<^verbatim>\<open>SP_DRAM_ADDR\<close>; a store to \<^verbatim>\<open>SP_RD_LEN\<close> has scratch memory as its destination,
  at the address stored last in \<^verbatim>\<open>SP_RSP_ADDR\<close>. Scratch memory (DMEM) is the 4096
  bytes from \<open>0xA4000000\<close>.
\<close>

record memory =
  rdram :: "u32 \<Rightarrow> 8 word"
  scratch :: "u32 \<Rightarrow> 8 word"
  dram_addr :: u32
  rsp_addr :: u32

definition fill :: "(u32 \<Rightarrow> 8 word) \<Rightarrow> u32 \<Rightarrow> nat \<Rightarrow> 8 word \<Rightarrow> u32 \<Rightarrow> 8 word" where
  "fill mem a n z = (\<lambda>x. if unat (x - a) < n then z else mem x)"

fun scratch_clear_dma :: "8 word \<Rightarrow> memory \<Rightarrow> event \<Rightarrow> memory" where
  "scratch_clear_dma z m (Store l x) =
     (if l = SP_DRAM_ADDR then m\<lparr>dram_addr := x\<rparr>
      else if l = SP_RSP_ADDR then m\<lparr>rsp_addr := x\<rparr>
      else if l = SP_WR_LEN then m\<lparr>rdram := fill (rdram m) (dram_addr m) (dma_length x) z\<rparr>
      else if l = SP_RD_LEN then m\<lparr>scratch := fill (scratch m) (rsp_addr m) (dma_length x) z\<rparr>
      else m)"
| "scratch_clear_dma z m _ = m"

definition memory_after :: "8 word \<Rightarrow> memory \<Rightarrow> event list \<Rightarrow> memory" where
  "memory_after z m t = foldl (scratch_clear_dma z) m t"

text \<open>
  Modelled from the spec: \<^verbatim>\<open>si_write\<close> and \<^verbatim>\<open>si_wait\<close> are helpers of
  \<^verbatim>\<open>minidragon.h\<close>, which is not among the sources. By the spec a write to the mailbox
  starts a transaction whose completion raises the completion signal, and
  \<^verbatim>\<open>supervisory_wait\<close> returns once the transaction is complete and the signal cleared.
  \<open>si_signal p t\<close> tells whether a completion signal is or will be pending after \<open>t\<close>,
  when \<open>p\<close> tells it before.
\<close>

fun supervisory :: "bool \<Rightarrow> event \<Rightarrow> bool" where
  "supervisory p (Si_write a x) = True"
| "supervisory p Si_wait = False"
| "supervisory p _ = p"

definition si_signal :: "bool \<Rightarrow> event list \<Rightarrow> bool" where
  "si_signal p t = foldl supervisory p t"

section \<open>The runs of the two stages\<close>

lemma while_busy_Some:
  "while_busy l busy w = Some w' \<Longrightarrow>
     \<exists>bs x. pending w = bs @ x # pending w' \<and> (\<forall>b\<in>set bs. busy b) \<and> \<not> busy x \<and>
            trace w' = trace w @ map (Load l) bs @ [Load l x]"
proof (induction l busy w rule: while_busy.induct)
  case (1 l busy w)
  show ?case
  proof (cases "pending w")
    case Nil
    with "1.prems" show ?thesis
      by (simp add: while_busy.simps [of l busy w] volatile_load_def)
  next
    case (Cons x xs)
    let ?w1 = "\<lparr>pending = xs, trace = trace w @ [Load l x]\<rparr>"
    have vl: "volatile_load l w = Some (x, ?w1)"
      by (simp add: volatile_load_def Cons)
    show ?thesis
    proof (cases "busy x")
      case True
      with "1.prems" vl have "while_busy l busy ?w1 = Some w'"
        by (simp add: while_busy.simps [of l busy w])
      from "1.IH" [OF vl refl True this]
      obtain bs y where "xs = bs @ y # pending w'" "\<forall>b\<in>set bs. busy b" "\<not> busy y"
        "trace w' = (trace w @ [Load l x]) @ map (Load l) bs @ [Load l y]"
        by auto
      with True Cons show ?thesis
        by (intro exI [of _ "x # bs"] exI [of _ y]) simp
    next
      case False
      with "1.prems" vl have "w' = ?w1"
        by (simp add: while_busy.simps [of l busy w])
      with False Cons show ?thesis
        by (intro exI [of _ "[]"] exI [of _ x]) simp
    qed
  qed
qed

lemma while_busy_returns:
  "(\<forall>b\<in>set bs. busy b) \<Longrightarrow> \<not> busy x \<Longrightarrow> pending w = bs @ x # rest \<Longrightarrow>
   while_busy l busy w = Some \<lparr>pending = rest, trace = trace w @ map (Load l) bs @ [Load l x]\<rparr>"
proof (induction bs arbitrary: w)
  case Nil
  then show ?case
    by (simp add: while_busy.simps [of l busy w] volatile_load_def)
next
  case (Cons b bs)
  let ?w1 = "\<lparr>pending = bs @ x # rest, trace = trace w @ [Load l b]\<rparr>"
  have "while_busy l busy ?w1 =
        Some \<lparr>pending = rest, trace = trace ?w1 @ map (Load l) bs @ [Load l x]\<rparr>"
    using Cons.prems by (intro Cons.IH) simp_all
  with Cons.prems show ?case
    by (simp add: while_busy.simps [of l busy w] volatile_load_def)
qed


lemma while_nonzero_Some:
  assumes "while_busy l (\<lambda>x. x \<noteq> 0) w = Some w'"
  obtains bs where "pending w = bs @ 0 # pending w'" "0 \<notin> set bs"
    "trace w' = trace w @ polls l bs 0"
proof -
  from while_busy_Some [OF assms]
  obtain bs x where "pending w = bs @ x # pending w'" "\<forall>b\<in>set bs. b \<noteq> 0" "\<not> x \<noteq> 0"
    "trace w' = trace w @ map (Load l) bs @ [Load l x]"
    by blast
  then show thesis
    by (intro that [of bs]) (auto simp: polls_def)
qed

lemma stage3_gen_Some:
  assumes "stage3_gen trs v entrypoint w = Some w'"
  shows "\<exists>memsize f1 f2 g.
           pending w = memsize # f1 @ 0 # f2 @ 0 # g @ 0 # pending w' \<and>
           0 \<notin> set f1 \<and> 0 \<notin> set f2 \<and> 0 \<notin> set g \<and>
           trace w' = trace w @ stage3_events trs v entrypoint memsize f1 f2 g"
proof -
  define w0 where "w0 = (case v of Normal \<Rightarrow> pif_terminate_boot w | Compat \<Rightarrow> w)"
  have w0: "pending w0 = pending w"
    "trace w0 = trace w @ (case v of Normal \<Rightarrow> [Si_write 0x7FC 0x8] | Compat \<Rightarrow> [])"
    by (simp_all add: w0_def pif_terminate_boot_def emit_def split: variant.split)
  from assms obtain memsize w1 w2 w3 w4 where
    ld: "volatile_load (Addr (case v of Normal \<Rightarrow> 0xA4000000 | Compat \<Rightarrow> 0x80000318)) w0
           = Some (memsize, w1)"
    and p1: "while_busy SP_DMA_FULL (\<lambda>x. x \<noteq> 0) (emit Cop0_clear_cache w1) = Some w2"
    and p2: "while_busy SP_DMA_FULL (\<lambda>x. x \<noteq> 0)
               (volatile_store SP_WR_LEN
                  (word_of_int (push_bit 12 (drop_bit 10 trs - 1) OR (1024 - 1)))
                  (volatile_store SP_DRAM_ADDR (memsize - word_of_int trs)
                     (volatile_store SP_RSP_ADDR 0xA4001000 w2))) = Some w3"
    and p3: "while_busy SP_DMA_BUSY (\<lambda>x. x \<noteq> 0)
               (case v of
                  Normal \<Rightarrow>
                    emit Si_wait
                      (volatile_store SP_RD_LEN (4096 - 16 - 1)
                        (volatile_store SP_RSP_ADDR 0xA4000010
                          (volatile_store SP_DRAM_ADDR 0x00802000 w3)))
                | Compat \<Rightarrow>
                    volatile_store SP_RD_LEN (4096 - 1)
                      (volatile_store SP_RSP_ADDR 0xA4000000
                        (volatile_store SP_DRAM_ADDR 0x00802000 w3))) = Some w4"
    and fin: "w' = emit (Goto entrypoint)
                (case v of
                   Normal \<Rightarrow> emit (Move_sp (0x80000000 + memsize - 0x10)) w4
                 | Compat \<Rightarrow> w4)"
    unfolding stage3_gen_def w0_def [symmetric] Let_def
    by (auto simp: bind_eq_Some_conv)
  from ld w0 have w1: "pending w = memsize # pending w1"
    "trace w1 = trace w0 @
       [Load (Addr (case v of Normal \<Rightarrow> 0xA4000000 | Compat \<Rightarrow> 0x80000318)) memsize]"
    by (auto simp: volatile_load_def split: list.splits)
  from p1 obtain f1 where f1: "pending w1 = f1 @ 0 # pending w2" "0 \<notin> set f1"
    "trace w2 = trace w1 @ [Cop0_clear_cache] @ polls SP_DMA_FULL f1 0"
    by (elim while_nonzero_Some) (simp add: emit_def)
  from p2 obtain f2 where f2: "pending w2 = f2 @ 0 # pending w3" "0 \<notin> set f2"
    "trace w3 = trace w2 @
       [Store SP_RSP_ADDR 0xA4001000,
        Store SP_DRAM_ADDR (memsize - word_of_int trs),
        Store SP_WR_LEN (word_of_int (push_bit 12 (drop_bit 10 trs - 1) OR 1023))] @
       polls SP_DMA_FULL f2 0"
    by (elim while_nonzero_Some) (simp add: emit_def volatile_store_def)
  from p3 obtain g where g: "pending w3 = g @ 0 # pending w4" "0 \<notin> set g"
    "trace w4 = trace w3 @ [Store SP_DRAM_ADDR 0x00802000] @
       (case v of
          Normal \<Rightarrow> [Store SP_RSP_ADDR 0xA4000010, Store SP_RD_LEN 4079, Si_wait]
        | Compat \<Rightarrow> [Store SP_RSP_ADDR 0xA4000000, Store SP_RD_LEN 4095]) @
       polls SP_DMA_BUSY g 0"
    by (elim while_nonzero_Some) (simp add: emit_def volatile_store_def split: variant.splits)
  from fin have w': "pending w' = pending w4"
    "trace w' = trace w4 @
       (case v of Normal \<Rightarrow> [Move_sp (0x80000000 + memsize - 0x10)] | Compat \<Rightarrow> []) @
       [Goto entrypoint]"
    by (simp_all add: emit_def split: variant.splits)
  have "pending w = memsize # f1 @ 0 # f2 @ 0 # g @ 0 # pending w'"
    using w1(1) f1(1) f2(1) g(1) w'(1) by simp
  moreover have "trace w' = trace w @ stage3_events trs v entrypoint memsize f1 f2 g"
    using w0(2) w1(2) f1(3) f2(3) g(3) w'(2) by (simp add: stage3_events_def)
  ultimately show ?thesis
    using f1(2) f2(2) g(2) by blast
qed


lemma while_nonzero_returns:
  "0 \<notin> set bs \<Longrightarrow> pending w = bs @ 0 # rest \<Longrightarrow>
   while_busy l (\<lambda>x. x \<noteq> 0) w = Some \<lparr>pending = rest, trace = trace w @ polls l bs 0\<rparr>"
  using while_busy_returns [of bs "\<lambda>x. x \<noteq> 0" 0 w rest l]
  by (auto simp: polls_def)

lemma stage3_gen_returns:
  assumes "0 \<notin> set f1" "0 \<notin> set f2" "0 \<notin> set g"
    and "pending w = memsize # f1 @ 0 # f2 @ 0 # g @ 0 # rest"
  shows "stage3_gen trs v entrypoint w =
         Some \<lparr>pending = rest,
               trace = trace w @ stage3_events trs v entrypoint memsize f1 f2 g\<rparr>"
  using assms
  by (cases v)
     (simp_all add: stage3_gen_def stage3_events_def pif_terminate_boot_def emit_def
        volatile_store_def volatile_load_def while_nonzero_returns)

lemma pi_wait_Some:
  assumes "while_busy PI_STATUS (pi_busy c) w = Some w'"
  obtains bs x where "pending w = bs @ x # pending w'" "\<forall>b\<in>set bs. pi_busy c b"
    "\<not> pi_busy c x" "trace w' = trace w @ polls PI_STATUS bs x"
  using while_busy_Some [OF assms] unfolding polls_def by blast

lemma stage2_Some:
  assumes "stage2 c v w = Some w'"
  shows "\<exists>entrypoint sz b1 i1 b2 i2 memsize f1 f2 g.
           pending w = entrypoint # sz # b1 @ i1 # b2 @ i2 #
                         memsize # f1 @ 0 # f2 @ 0 # g @ 0 # pending w' \<and>
           (\<forall>b\<in>set b1. pi_busy c b) \<and> \<not> pi_busy c i1 \<and>
           (\<forall>b\<in>set b2. pi_busy c b) \<and> \<not> pi_busy c i2 \<and>
           0 \<notin> set f1 \<and> 0 \<notin> set f2 \<and> 0 \<notin> set g \<and>
           trace w' = trace w @ stage2_events c v entrypoint sz b1 i1 b2 i2 @
                        stage3_events TOTAL_RESERVED_SIZE v entrypoint memsize f1 f2 g"
proof -
  from assms obtain entrypoint sz w1 w2 w3 w4 where
    l1: "io_read32 0x10000008 w = Some (entrypoint, w1)"
    and l2: "io_read32 0x10000010 w1 = Some (sz, w2)"
    and p1: "while_busy PI_STATUS (pi_busy c) w2 = Some w3"
    and p2: "while_busy PI_STATUS (pi_busy c)
               (volatile_store PI_WR_LEN
                  ((if sz = 0 \<or> sz > push_bit 20 8 - (entrypoint AND 0x1FFFFFFF)
                                        - word_of_int TOTAL_RESERVED_SIZE
                    then push_bit 20 1 else sz) - 1)
                  (volatile_store PI_CART_ADDR 0x10001000
                     (volatile_store PI_DRAM_ADDR entrypoint w3))) = Some w4"
    and s3: "stage3 v entrypoint (emit Rcp_reset w4) = Some w'"
    unfolding stage2_def pi_read_async_def pi_wait_def Let_def
    by (auto simp: bind_eq_Some_conv)
  from l1 have w1: "pending w = entrypoint # pending w1"
    "trace w1 = trace w @ [Load (Addr 0xB0000008) entrypoint]"
    by (auto simp: io_read32_def volatile_load_def split: list.splits)
  from l2 have w2: "pending w1 = sz # pending w2"
    "trace w2 = trace w1 @ [Load (Addr 0xB0000010) sz]"
    by (auto simp: io_read32_def volatile_load_def split: list.splits)
  from p1 obtain b1 i1 where b1: "pending w2 = b1 @ i1 # pending w3"
    "\<forall>b\<in>set b1. pi_busy c b" "\<not> pi_busy c i1"
    "trace w3 = trace w2 @ polls PI_STATUS b1 i1"
    by (elim pi_wait_Some)
  from p2 obtain b2 i2 where b2: "pending w3 = b2 @ i2 # pending w4"
    "\<forall>b\<in>set b2. pi_busy c b" "\<not> pi_busy c i2"
    "trace w4 = trace w3 @
       [Store PI_DRAM_ADDR entrypoint,
        Store PI_CART_ADDR 0x10001000,
        Store PI_WR_LEN
          ((if sz = 0 \<or> sz > 0x800000 - (entrypoint AND 0x1FFFFFFF) - 0x8000
            then 0x100000 else sz) - 1)] @
       polls PI_STATUS b2 i2"
    by (elim pi_wait_Some)
       (simp add: emit_def volatile_store_def TOTAL_RESERVED_SIZE_def LOADER_SIZE_def)
  from stage3_gen_Some [OF s3 [unfolded stage3_def]]
  obtain memsize f1 f2 g where
    s: "pending w4 = memsize # f1 @ 0 # f2 @ 0 # g @ 0 # pending w'"
    "0 \<notin> set f1" "0 \<notin> set f2" "0 \<notin> set g"
    "trace w' = trace w4 @ [Rcp_reset] @
       stage3_events TOTAL_RESERVED_SIZE v entrypoint memsize f1 f2 g"
    by (auto simp: emit_def)
  have "pending w = entrypoint # sz # b1 @ i1 # b2 @ i2 #
                      memsize # f1 @ 0 # f2 @ 0 # g @ 0 # pending w'"
    using w1(1) w2(1) b1(1) b2(1) s(1) by simp
  moreover have "trace w' = trace w @ stage2_events c v entrypoint sz b1 i1 b2 i2 @
                   stage3_events TOTAL_RESERVED_SIZE v entrypoint memsize f1 f2 g"
    using w1(2) w2(2) b1(4) b2(4) s(5) by (simp add: stage2_events_def)
  ultimately show ?thesis
    using b1(2,3) b2(2,3) s(2,3,4) by blast
qed

lemma stage2_returns:
  assumes "\<forall>b\<in>set b1. pi_busy c b" "\<not> pi_busy c i1"
    and "\<forall>b\<in>set b2. pi_busy c b" "\<not> pi_busy c i2"
    and "0 \<notin> set f1" "0 \<notin> set f2" "0 \<notin> set g"
    and "pending w = entrypoint # sz # b1 @ i1 # b2 @ i2 #
                       memsize # f1 @ 0 # f2 @ 0 # g @ 0 # rest"
  shows "stage2 c v w =
         Some \<lparr>pending = rest,
               trace = trace w @ stage2_events c v entrypoint sz b1 i1 b2 i2 @
                         stage3_events TOTAL_RESERVED_SIZE v entrypoint memsize f1 f2 g\<rparr>"
proof -
  let ?w2 = "\<lparr>pending = b1 @ i1 # b2 @ i2 # memsize # f1 @ 0 # f2 @ 0 # g @ 0 # rest,
              trace = trace w @ [Load (Addr 0xB0000008) entrypoint, Load (Addr 0xB0000010) sz]\<rparr>"
  have l: "io_read32 0x10000008 w \<bind> (\<lambda>(e, w). io_read32 0x10000010 w \<bind> (\<lambda>(s, w). F e s w))
           = F entrypoint sz ?w2" for F :: "u32 \<Rightarrow> u32 \<Rightarrow> world \<Rightarrow> world option"
    using assms(8) by (simp add: io_read32_def volatile_load_def)
  show ?thesis
    unfolding stage2_def l
    using assms(1-7)
    by (simp add: pi_read_async_def pi_wait_def stage3_def
        while_busy_returns [where rest = "b2 @ i2 # memsize # f1 @ 0 # f2 @ 0 # g @ 0 # rest"]
        while_busy_returns [where rest = "memsize # f1 @ 0 # f2 @ 0 # g @ 0 # rest"]
        stage3_gen_returns [where rest = rest]
        volatile_store_def emit_def stage2_events_def polls_def
        TOTAL_RESERVED_SIZE_def LOADER_SIZE_def)
qed

section \<open>Helper facts\<close>

lemma run_stage2_shape:
  assumes "run (stage2 c v) resp = Some t"
  obtains entrypoint sz b1 i1 b2 i2 memsize f1 f2 g rest where
    "resp = entrypoint # sz # b1 @ i1 # b2 @ i2 # memsize # f1 @ 0 # f2 @ 0 # g @ 0 # rest"
    "\<forall>b\<in>set b1. pi_busy c b" "\<not> pi_busy c i1" "\<forall>b\<in>set b2. pi_busy c b" "\<not> pi_busy c i2"
    "0 \<notin> set f1" "0 \<notin> set f2" "0 \<notin> set g"
    "t = stage2_events c v entrypoint sz b1 i1 b2 i2 @
         stage3_events TOTAL_RESERVED_SIZE v entrypoint memsize f1 f2 g"
proof -
  from assms obtain w' where "stage2 c v \<lparr>pending = resp, trace = []\<rparr> = Some w'" "t = trace w'"
    by (auto simp: run_def)
  from stage2_Some [OF this(1)] this(2) that show thesis
    by auto
qed

lemma run_stage3_shape:
  assumes "run (stage3_gen trs v entrypoint) resp = Some t"
  obtains memsize f1 f2 g rest where
    "resp = memsize # f1 @ 0 # f2 @ 0 # g @ 0 # rest"
    "0 \<notin> set f1" "0 \<notin> set f2" "0 \<notin> set g"
    "t = stage3_events trs v entrypoint memsize f1 f2 g"
proof -
  from assms obtain w' where
    "stage3_gen trs v entrypoint \<lparr>pending = resp, trace = []\<rparr> = Some w'" "t = trace w'"
    by (auto simp: run_def)
  from stage3_gen_Some [OF this(1)] this(2) that show thesis
    by auto
qed

lemma pi_descriptors_loads [simp]:
  "pi_descriptors s (map (Load l) bs @ es) = pi_descriptors s es"
  by (induction bs) (cases s; simp)+

lemma pi_descriptors_stage3 [simp]:
  "pi_descriptors s (stage3_events trs v entrypoint memsize f1 f2 g) = []"
  by (cases s; cases v) (simp_all add: stage3_events_def polls_def)

lemma pi_transfers_stage2:
  "pi_transfers (stage2_events c v entrypoint sz b1 i1 b2 i2 @
                 stage3_events trs v entrypoint memsize f1 f2 g) =
   [(entrypoint, 0x10001000,
     if sz = 0 \<or> sz > 0x800000 - (entrypoint AND 0x1FFFFFFF) - 0x8000 then 0x100000 else sz)]"
  by (simp add: pi_transfers_def stage2_events_def polls_def)

lemma take2_stage2:
  "take 2 (stage2_events c v entrypoint sz b1 i1 b2 i2 @ es) =
     [Load (Addr 0xB0000008) entrypoint, Load (Addr 0xB0000010) sz]"
  by (simp add: stage2_events_def)

lemma wrapped_bound:
  fixes x :: u32
  assumes "x \<le> 0x1FFFFFFF" "8 * 1024 * 1024 < unat x + 32768"
  shows "unat (0x800000 - x - 0x8000) = 2 ^ 32 + 8 * 1024 * 1024 - unat x - 32768"
proof -
  have "0x800000 - x - 0x8000 = 0x7F8000 - x"
    by simp
  moreover have "unat x \<le> 0x1FFFFFFF"
    using assms(1) by (simp add: word_le_nat_alt)
  ultimately show ?thesis
    using assms(2) by (simp add: unat_sub_if_size word_size)
qed

lemmas run_simps = run_def stage2_def io_read32_def volatile_load_def pi_read_async_def
    pi_wait_def while_busy.simps pi_busy_def volatile_store_def emit_def stage3_def stage3_gen_def
    pif_terminate_boot_def TOTAL_RESERVED_SIZE_def LOADER_SIZE_def

lemma run_stage3_shape':
  assumes "run (stage3 v entrypoint) resp = Some t"
  obtains memsize f1 f2 g rest where
    "resp = memsize # f1 @ 0 # f2 @ 0 # g @ 0 # rest"
    "0 \<notin> set f1" "0 \<notin> set f2" "0 \<notin> set g"
    "t = stage3_events TOTAL_RESERVED_SIZE v entrypoint memsize f1 f2 g"
  using assms unfolding stage3_def by (rule run_stage3_shape)

lemma operations_append [simp]: "operations (xs @ ys) = operations xs @ operations ys"
  by (simp add: operations_def)

lemma operations_polls [simp]: "operations (polls l bs x) = []"
  by (simp add: operations_def polls_def)

lemma operations_Cons [simp]:
  "operations (e # es) = (if is_Load e then operations es else e # operations es)"
  by (simp add: operations_def)

lemma operations_Nil [simp]: "operations [] = []"
  by (simp add: operations_def)

lemma operations_stage3:
  "operations (stage3_events trs v e memsize f1 f2 g) =
     (case v of Normal \<Rightarrow> [Si_write 0x7FC 0x8] | Compat \<Rightarrow> []) @
     [Cop0_clear_cache,
      Store SP_RSP_ADDR 0xA4001000,
      Store SP_DRAM_ADDR (memsize - word_of_int trs),
      Store SP_WR_LEN (word_of_int (push_bit 12 (drop_bit 10 trs - 1) OR 1023)),
      Store SP_DRAM_ADDR 0x00802000] @
     (case v of
        Normal \<Rightarrow> [Store SP_RSP_ADDR 0xA4000010, Store SP_RD_LEN 4079, Si_wait,
                   Move_sp (0x80000000 + memsize - 0x10)]
      | Compat \<Rightarrow> [Store SP_RSP_ADDR 0xA4000000, Store SP_RD_LEN 4095]) @
     [Goto e]"
  by (cases v) (simp_all add: stage3_events_def)

lemma operations_stage2:
  "operations (stage2_events c v e s b1 i1 b2 i2) =
     [Store PI_DRAM_ADDR e,
      Store PI_CART_ADDR 0x10001000,
      Store PI_WR_LEN
        ((if s = 0 \<or> s > 0x800000 - (e AND 0x1FFFFFFF) - 0x8000 then 0x100000 else s) - 1),
      Rcp_reset]"
  by (simp add: stage2_events_def)

lemma control_word: "(word_of_int (push_bit 12 (drop_bit 10 TOTAL_RESERVED_SIZE - 1) OR 1023) :: u32) = 0x1F3FF"
  by (simp add: TOTAL_RESERVED_SIZE_def LOADER_SIZE_def drop_bit_eq_div push_bit_eq_mult)

lemma si_signal_append [simp]: "si_signal p (xs @ ys) = si_signal (si_signal p xs) ys"
  by (simp add: si_signal_def)

lemma si_signal_Cons [simp]: "si_signal p (e # es) = si_signal (supervisory p e) es"
  by (simp add: si_signal_def)

lemma si_signal_Nil [simp]: "si_signal p [] = p"
  by (simp add: si_signal_def)

lemma si_signal_loads [simp]: "si_signal p (map (Load l) bs) = p"
  by (induction bs) simp_all

lemma filter_loads [simp]:
  "filter is_Si_write (map (Load l) bs) = []" "filter is_Move_sp (map (Load l) bs) = []"
  by (induction bs) simp_all

lemma free_pi_busy [simp]: "pi_busy c b \<Longrightarrow> reports_free c (Load PI_STATUS b) g = False"
  by (cases g) simp_all

lemma free_sp_full [simp]: "b \<noteq> 0 \<Longrightarrow> reports_free c (Load SP_DMA_FULL b) g = False"
  by (cases g) simp_all

lemma free_sp_busy [simp]: "reports_free c (Load SP_DMA_BUSY b) g = False"
  by (cases g) simp_all

lemma free_addr [simp]: "reports_free c (Load (Addr a) b) g = False"
  by (cases g) simp_all







lemma memory_after_simps [simp]:
  "memory_after z m [] = m"
  "memory_after z m (e # es) = memory_after z (scratch_clear_dma z m e) es"
  "memory_after z m (xs @ ys) = memory_after z (memory_after z m xs) ys"
  by (simp_all add: memory_after_def)

lemma memory_after_loads [simp]: "memory_after z m (map (Load l) bs) = m"
  by (induction bs) simp_all

lemma memory_after_polls [simp]: "memory_after z m (polls l bs x) = m"
  by (simp add: polls_def)

lemma dma_length_words:
  "dma_length 0x1F3FF = 32768" "dma_length 4079 = 4080" "dma_length 4095 = 4096"
  by (simp_all add: dma_length_def drop_bit_eq_div)

lemma memory_after_stage3:
  "memory_after z m (stage3_events TOTAL_RESERVED_SIZE v e memsize f1 f2 g) =
     m\<lparr>rdram := fill (rdram m) (memsize - 0x8000) 32768 z,
       scratch := (case v of
                     Normal \<Rightarrow> fill (scratch m) 0xA4000010 4080 z
                   | Compat \<Rightarrow> fill (scratch m) 0xA4000000 4096 z),
       dram_addr := 0x00802000,
       rsp_addr := (case v of Normal \<Rightarrow> 0xA4000010 | Compat \<Rightarrow> 0xA4000000)\<rparr>"
  by (cases v)
     (simp_all add: stage3_events_def control_word dma_length_words
        TOTAL_RESERVED_SIZE_def LOADER_SIZE_def)

lemma unat_of_nat_32: "i < 2 ^ 32 \<Longrightarrow> unat (of_nat i :: u32) = i"
  by (intro of_nat_inverse [OF refl]) simp

lemma fill_inside:
  "i < n \<Longrightarrow> i < 2 ^ 32 \<Longrightarrow> fill mem a n z (a + of_nat i) = z"
  by (simp add: fill_def unat_of_nat_32)

lemma fill_scratch_normal:
  assumes "i < 4096"
  shows "fill mem 0xA4000010 4080 z (0xA4000000 + of_nat i) =
           (if 16 \<le> i then z else mem (0xA4000000 + of_nat i))"
proof (cases "16 \<le> i")
  case True
  then have eq: "(0xA4000000 + of_nat i :: u32) = 0xA4000010 + of_nat (i - 16)"
    by (simp add: of_nat_diff)
  have "fill mem 0xA4000010 4080 z (0xA4000010 + of_nat (i - 16)) = z"
    using True assms by (intro fill_inside) simp_all
  then show ?thesis
    unfolding eq using True by simp
next
  case False
  have d: "(0xA4000000 + of_nat i :: u32) - 0xA4000010 = of_nat (2 ^ 32 - 16 + i)"
    by simp
  have "unat (of_nat (2 ^ 32 - 16 + i) :: u32) = 2 ^ 32 - 16 + i"
    using False by (intro unat_of_nat_32) simp
  then have "\<not> unat ((0xA4000000 + of_nat i :: u32) - 0xA4000010) < 4080"
    unfolding d by simp
  with False show ?thesis
    unfolding fill_def by (simp only: if_False)
qed

lemma smod_1024: "(trs :: int) smod 1024 = 0 \<longleftrightarrow> 1024 dvd trs"
  by (cases "trs = 0") (auto simp: smod_int_alt_def mod_eq_0_iff_dvd sgn_if)

lemma returns_any_size:
  "(stage3_gen trs v e w = None) = (stage3_gen trs' v e w = None)"
proof -
  have "\<exists>w'. stage3_gen b v e w = Some w'" if "stage3_gen a v e w = Some w'" for a b w'
  proof -
    from stage3_gen_Some [OF that] obtain memsize f1 f2 g where
      "pending w = memsize # f1 @ 0 # f2 @ 0 # g @ 0 # pending w'"
      "0 \<notin> set f1" "0 \<notin> set f2" "0 \<notin> set g"
      by blast
    from stage3_gen_returns [OF this(2,3,4,1)] show ?thesis
      by blast
  qed
  then show ?thesis
    by (metis not_Some_eq)
qed

lemma claimed_word:
  "(push_bit 12 (word_of_int (TOTAL_RESERVED_SIZE div 1024) - 1) OR (1024 - 1) :: u32) = 0x1F3FF"
  by (simp add: TOTAL_RESERVED_SIZE_def LOADER_SIZE_def push_bit_eq_mult)

lemma cw_int:
  fixes k :: int
  shows "push_bit 12 k OR 1023 = 4096 * k + 1023"
proof -
  have "push_bit 12 k OR 1023 = concat_bit 12 1023 k"
    by (simp add: concat_bit_def or.commute)
  also have "\<dots> = 1023 + push_bit 12 k"
    by (simp add: concat_bit_eq)
  finally show ?thesis
    by (simp add: push_bit_eq_mult)
qed

lemma dma_length_gen:
  fixes trs :: int
  assumes "1024 \<le> trs" "trs < 2 ^ 30"
  shows "dma_length (word_of_int (push_bit 12 (drop_bit 10 trs - 1) OR 1023)) =
           1024 * nat (trs div 1024)"
proof -
  define k where "k = nat (trs div 1024 - 1)"
  have k: "trs div 1024 - 1 = int k" "k < 2 ^ 20" "nat (trs div 1024) = k + 1"
    using assms by (auto simp: k_def)
  have w: "(word_of_int (push_bit 12 (drop_bit 10 trs - 1) OR 1023) :: u32) = of_nat (4096 * k + 1023)"
    by (simp add: cw_int drop_bit_eq_div k(1))
  have u: "unat (of_nat (4096 * k + 1023) :: u32) = 4096 * k + 1023"
    using k(2) by (intro of_nat_inverse [OF refl]) simp
  have d: "unat (drop_bit 12 (of_nat (4096 * k + 1023) :: u32)) = k"
    unfolding unat_drop_bit_eq u by (simp add: drop_bit_eq_div)
  have a: "unat ((of_nat (4096 * k + 1023) :: u32) AND 0xFFF) = 1023"
  proof -
    have "(of_nat (4096 * k + 1023) :: u32) AND 0xFFF = take_bit 12 (of_nat (4096 * k + 1023))"
      by (simp add: take_bit_eq_mask mask_eq_exp_minus_1)
    then have "unat ((of_nat (4096 * k + 1023) :: u32) AND 0xFFF) =
               take_bit 12 (unat (of_nat (4096 * k + 1023) :: u32))"
      by (simp only: unsigned_take_bit_eq)
    also have "\<dots> = (4096 * k + 1023) mod 4096"
      unfolding u by (simp add: take_bit_eq_mod)
    also have "\<dots> = 1023"
      by simp
    finally show ?thesis .
  qed
  show ?thesis
    unfolding w dma_length_def d a k(3) by simp
qed

lemma run_stage2_returns:
  assumes "\<forall>b\<in>set b1. pi_busy c b" "\<not> pi_busy c i1"
    and "\<forall>b\<in>set b2. pi_busy c b" "\<not> pi_busy c i2"
    and "0 \<notin> set f1" "0 \<notin> set f2" "0 \<notin> set g"
  shows "run (stage2 c v)
           (entrypoint # sz # b1 @ i1 # b2 @ i2 # memsize # f1 @ 0 # f2 @ 0 # g @ 0 # rest) =
         Some (stage2_events c v entrypoint sz b1 i1 b2 i2 @
               stage3_events TOTAL_RESERVED_SIZE v entrypoint memsize f1 f2 g)"
  unfolding run_def
  by (subst stage2_returns [OF assms]) simp_all

lemma run_stage3_returns:
  assumes "0 \<notin> set f1" "0 \<notin> set f2" "0 \<notin> set g"
  shows "run (stage3 v entrypoint) (memsize # f1 @ 0 # f2 @ 0 # g @ 0 # rest) =
         Some (stage3_events TOTAL_RESERVED_SIZE v entrypoint memsize f1 f2 g)"
  unfolding run_def stage3_def
  by (subst stage3_gen_returns [OF assms]) simp_all

lemma run_stage2_at_once:
  "run (stage2 c v) [entrypoint, sz, 0, 0, memsize, 0, 0, 0] =
   Some (stage2_events c v entrypoint sz [] 0 [] 0 @
         stage3_events TOTAL_RESERVED_SIZE v entrypoint memsize [] [] [])"
  using run_stage2_returns [of "[]" c 0 "[]" 0 "[]" "[]" "[]" v entrypoint sz memsize "[]"]
  by (simp add: pi_busy_def)

lemma run_stage3_at_once:
  "run (stage3 v entrypoint) [memsize, 0, 0, 0] =
   Some (stage3_events TOTAL_RESERVED_SIZE v entrypoint memsize [] [] [])"
  using run_stage3_returns [of "[]" "[]" "[]" v entrypoint memsize "[]"]
  by simp

lemma unwrapped_bound:
  fixes x :: u32
  assumes "unat x + 32768 \<le> 8 * 1024 * 1024"
  shows "unat (0x800000 - x - 0x8000) = 8 * 1024 * 1024 - unat x - 32768"
proof -
  have "0x800000 - x - 0x8000 = 0x7F8000 - x"
    by simp
  then show ?thesis
    using assms by (simp add: unat_sub_if_size word_size)
qed

section \<open>Properties of the two stages\<close>

lemma pi_idle_iff:
  "\<not> pi_busy c x \<longleftrightarrow> x AND PI_STATUS_DMA_BUSY c = 0 \<and> x AND PI_STATUS_IO_BUSY c = 0"
  by (simp add: pi_busy_def bit.conj_disj_distrib or_eq_0_iff)

text \<open>
  C9. \<^verbatim>\<open>pi_read_async(ram_dest, cart_src, len)\<close> returns exactly when the answers to its
  loads of \<^verbatim>\<open>PI_STATUS\<close> are some answers with a busy bit set (DMA busy or IO busy) and
  then one answer with neither set. What it has done then is: these loads, and after the
  last of them the stores of \<open>ram_dest\<close> to \<^verbatim>\<open>PI_DRAM_ADDR\<close>, of \<open>cart_src\<close> to
  \<^verbatim>\<open>PI_CART_ADDR\<close> and of \<open>len - 1\<close> to \<^verbatim>\<open>PI_WR_LEN\<close>, in this order and nothing
  after them: it does not read the status again, and the answers after the idle one are
  left unread.
\<close>

theorem pi_read_async_polls_then_programs:
  "pi_read_async c ram_dest cart_src len w = Some w' \<longleftrightarrow>
     (\<exists>bs x. pending w = bs @ x # pending w' \<and>
        (\<forall>b\<in>set bs. b AND PI_STATUS_DMA_BUSY c \<noteq> 0 \<or> b AND PI_STATUS_IO_BUSY c \<noteq> 0) \<and>
        x AND PI_STATUS_DMA_BUSY c = 0 \<and> x AND PI_STATUS_IO_BUSY c = 0 \<and>
        trace w' = trace w @ map (Load PI_STATUS) bs @
          [Load PI_STATUS x,
           Store PI_DRAM_ADDR ram_dest,
           Store PI_CART_ADDR cart_src,
           Store PI_WR_LEN (len - 1)])"
  (is "?lhs \<longleftrightarrow> ?rhs")
proof
  assume ?lhs
  then obtain w1 where p: "while_busy PI_STATUS (pi_busy c) w = Some w1"
    and w': "w' = volatile_store PI_WR_LEN (len - 1)
                    (volatile_store PI_CART_ADDR cart_src
                      (volatile_store PI_DRAM_ADDR ram_dest w1))"
    by (auto simp: pi_read_async_def bind_eq_Some_conv)
  from while_busy_Some [OF p] obtain bs x where
    "pending w = bs @ x # pending w1" "\<forall>b\<in>set bs. pi_busy c b" "\<not> pi_busy c x"
    "trace w1 = trace w @ map (Load PI_STATUS) bs @ [Load PI_STATUS x]"
    by blast
  with w' show ?rhs
    using pi_idle_iff [of c]
    by (intro exI [of _ bs] exI [of _ x]) (auto simp: volatile_store_def emit_def)
next
  assume ?rhs
  then obtain bs x where r: "pending w = bs @ x # pending w'"
    "\<forall>b\<in>set bs. pi_busy c b" "\<not> pi_busy c x"
    "trace w' = trace w @ map (Load PI_STATUS) bs @
       [Load PI_STATUS x, Store PI_DRAM_ADDR ram_dest, Store PI_CART_ADDR cart_src,
        Store PI_WR_LEN (len - 1)]"
    using pi_idle_iff [of c] by auto
  from while_busy_returns [OF r(2,3,1), of PI_STATUS] r(4) show ?lhs
    by (simp add: pi_read_async_def volatile_store_def emit_def)
qed

theorem pi_read_async_polls_then_programs_witness:
  "pi_read_async \<lparr>PI_STATUS_DMA_BUSY = 1, PI_STATUS_IO_BUSY = 2\<rparr> 0x80000400 0x10001000 0x100
     \<lparr>pending = [3, 1, 0, 7], trace = []\<rparr> =
   Some \<lparr>pending = [7],
         trace = [Load PI_STATUS 3, Load PI_STATUS 1, Load PI_STATUS 0,
                  Store PI_DRAM_ADDR 0x80000400, Store PI_CART_ADDR 0x10001000,
                  Store PI_WR_LEN 0xFF]\<rparr>"
  by (rule pi_read_async_polls_then_programs [THEN iffD2])
     (rule exI [of _ "[3, 1]"], rule exI [of _ 0], simp)

text \<open>
  What \<^verbatim>\<open>stage2\<close> computes: the length of its transfer is the 1 MiB fallback if the
  declared size \<open>s\<close> is 0 or above the bound as the unsigned 32-bit subtraction gives it,
  and \<open>s\<close> otherwise.
\<close>

lemma stage2_size_as_computed:
  assumes "run (stage2 c v) (e # s # rest) = Some t"
  shows "map (\<lambda>(ram, cart, n). n) (pi_transfers t) =
           [if s = 0 \<or>
               s > 8 * 1024 * 1024 - (e AND 0x1FFFFFFF) - word_of_int TOTAL_RESERVED_SIZE
            then 1024 * 1024 else s]"
  using assms
  by (elim run_stage2_shape)
     (simp add: pi_transfers_stage2 TOTAL_RESERVED_SIZE_def LOADER_SIZE_def)

text \<open>
  Where \<open>(e & 0x1FFFFFFF) + TOTAL_RESERVED_SIZE\<close> does not exceed 8 MiB, the subtraction
  does not wrap and the length is as the space available over the integers demands.
\<close>

lemma stage2_size_where_bound_does_not_wrap:
  assumes "run (stage2 c v) (e # s # rest) = Some t"
    and "unat (e AND 0x1FFFFFFF) + nat TOTAL_RESERVED_SIZE \<le> 8 * 1024 * 1024"
  shows "map (\<lambda>(ram, cart, n). n) (pi_transfers t) =
           [if s = 0 \<or>
               int (unat s) > 8 * 1024 * 1024 - int (unat (e AND 0x1FFFFFFF)) - TOTAL_RESERVED_SIZE
            then 1024 * 1024 else s]"
proof -
  have n: "unat (e AND 0x1FFFFFFF) + 32768 \<le> 8 * 1024 * 1024"
    using assms(2) by (simp add: TOTAL_RESERVED_SIZE_def LOADER_SIZE_def)
  have "unat (0x800000 - (e AND 0x1FFFFFFF) - 0x8000) =
          8 * 1024 * 1024 - unat (e AND 0x1FFFFFFF) - 32768"
    using n by (rule unwrapped_bound)
  then have "s > 0x800000 - (e AND 0x1FFFFFFF) - 0x8000 \<longleftrightarrow>
             int (unat s) > 8 * 1024 * 1024 - int (unat (e AND 0x1FFFFFFF)) - 32768"
    using n unfolding word_less_nat_alt by linarith
  moreover have "map (\<lambda>(ram, cart, n). n) (pi_transfers t) =
      [if s = 0 \<or> s > 0x800000 - (e AND 0x1FFFFFFF) - 0x8000 then 0x100000 else s]"
    using assms(1) by (elim run_stage2_shape) (simp add: pi_transfers_stage2)
  ultimately show ?thesis
    by (simp add: TOTAL_RESERVED_SIZE_def LOADER_SIZE_def)
qed

text \<open>
  C1 asks for the 1 MiB fallback whenever the declared size is 0 or exceeds
  \<open>8 MiB - (e & 0x1FFFFFFF) - TOTAL_RESERVED_SIZE\<close>, the space available. The code misses
  the headers whose entry address leaves no space: with the entry address \<open>0x807FF000\<close>
  the space available is \<open>-28672\<close>, and the declared size \<open>0x900000\<close> exceeds it; but
  \<^verbatim>\<open>stage2\<close> computes the bound in unsigned 32-bit arithmetic, where it wraps to
  \<open>0xFFFF9000\<close>, and transfers the declared \<open>0x900000\<close> bytes, not the fallback.
\<close>

theorem stage2_oversize_kept_at_high_entry:
  "8 * 1024 * 1024 - int (unat (0x807FF000 AND 0x1FFFFFFF :: u32)) - TOTAL_RESERVED_SIZE = - 28672 \<and>
   - 28672 < int (unat (0x900000 :: u32)) \<and>
   (8 * 1024 * 1024 - (0x807FF000 AND 0x1FFFFFFF) - word_of_int TOTAL_RESERVED_SIZE :: u32) =
     0xFFFF9000 \<and>
   map_option pi_transfers
     (run (stage2 \<lparr>PI_STATUS_DMA_BUSY = 1, PI_STATUS_IO_BUSY = 2\<rparr> Compat)
        [0x807FF000, 0x900000, 0, 0, 0x800000, 0, 0, 0]) =
     Some [(0x807FF000, 0x10001000, 0x900000)]"
  by (simp add: run_simps pi_transfers_def)

text \<open>
  C2. A run of \<^verbatim>\<open>stage2\<close> (to the final jump of \<^verbatim>\<open>stage3\<close>) first loads the entry
  address \<open>e\<close> from header offset \<open>0x10000008\<close> and the size \<open>s\<close> from \<open>0x10000010\<close>,
  and it starts exactly one cartridge-bus transfer: to RAM address \<open>e\<close>, from cartridge
  address \<open>0x10001000\<close>, of the effective size. For \<open>e = 0x80100000\<close> and \<open>s = 0\<close> the
  one transfer has length \<open>1 * 1024 * 1024\<close>. With engines that answer idle at once
  the run does return.
\<close>

theorem stage2_one_transfer:
  assumes "run (stage2 c v) (e # s # rest) = Some t"
  shows "take 2 t = [Load (Addr (0x10000008 OR 0xA0000000)) e,
                     Load (Addr (0x10000010 OR 0xA0000000)) s] \<and>
         pi_transfers t =
           [(e, 0x10001000,
             if s = 0 \<or>
                s > 8 * 1024 * 1024 - (e AND 0x1FFFFFFF) - word_of_int TOTAL_RESERVED_SIZE
             then 1024 * 1024 else s)] \<and>
         (e = 0x80100000 \<and> s = 0 \<longrightarrow>
            pi_transfers t = [(0x80100000, 0x10001000, 1 * 1024 * 1024)]) \<and>
         run (stage2 c v) [e, s, 0, 0, memsize, 0, 0, 0] \<noteq> None"
proof -
  from assms obtain b1 i1 b2 i2 m f1 f2 g where
    t: "t = stage2_events c v e s b1 i1 b2 i2 @
            stage3_events TOTAL_RESERVED_SIZE v e m f1 f2 g"
    by (elim run_stage2_shape) simp
  have "take 2 t = [Load (Addr 0xB0000008) e, Load (Addr 0xB0000010) s]"
    unfolding t by (rule take2_stage2)
  moreover have "pi_transfers t =
      [(e, 0x10001000,
        if s = 0 \<or> s > 0x800000 - (e AND 0x1FFFFFFF) - 0x8000 then 0x100000 else s)]"
    unfolding t by (rule pi_transfers_stage2)
  ultimately show ?thesis
    by (simp add: run_stage2_at_once TOTAL_RESERVED_SIZE_def LOADER_SIZE_def)
qed

theorem stage2_one_transfer_witness:
  "map_option pi_transfers
     (run (stage2 \<lparr>PI_STATUS_DMA_BUSY = 1, PI_STATUS_IO_BUSY = 2\<rparr> Compat)
        [0x80100000, 0, 0, 2, 1, 0, 0x800000, 0, 0, 0]) =
   Some [(0x80100000, 0x10001000, 1 * 1024 * 1024)]"
proof -
  have r: "run (stage2 \<lparr>PI_STATUS_DMA_BUSY = 1, PI_STATUS_IO_BUSY = 2\<rparr> Compat)
      [0x80100000, 0, 0, 2, 1, 0, 0x800000, 0, 0, 0] =
   Some [Load (Addr 0xB0000008) 0x80100000, Load (Addr 0xB0000010) 0,
         Load PI_STATUS 0,
         Store PI_DRAM_ADDR 0x80100000, Store PI_CART_ADDR 0x10001000,
         Store PI_WR_LEN 0xFFFFF, Load PI_STATUS 2, Load PI_STATUS 1, Load PI_STATUS 0,
         Rcp_reset,
         Load (Addr 0x80000318) 0x800000, Cop0_clear_cache,
         Load SP_DMA_FULL 0,
         Store SP_RSP_ADDR 0xA4001000, Store SP_DRAM_ADDR 0x7F8000, Store SP_WR_LEN 0x1F3FF,
         Load SP_DMA_FULL 0,
         Store SP_DRAM_ADDR 0x802000, Store SP_RSP_ADDR 0xA4000000, Store SP_RD_LEN 4095,
         Load SP_DMA_BUSY 0, Goto 0x80100000]"
    by (simp add: run_simps)
  from stage2_one_transfer [OF r] r show ?thesis
    by simp
qed

text \<open>
  C10, as stated, fails: with the entry address \<open>0x80800000\<close> the bound wraps (to
  \<open>0xFFFF8000\<close>), and the nonzero declared size \<open>0xFFFFFFFF\<close> is above the wrapped bound,
  so it is replaced by the 1 MiB fallback and not kept.
\<close>

theorem stage2_wrap_keeps_size_counterexample:
  "8 * 1024 * 1024 < unat (0x80800000 AND 0x1FFFFFFF :: u32) + nat TOTAL_RESERVED_SIZE \<and>
   (0xFFFFFFFF :: u32) \<noteq> 0 \<and>
   map_option (\<lambda>t. map (\<lambda>(ram, cart, n). n) (pi_transfers t))
     (run (stage2 \<lparr>PI_STATUS_DMA_BUSY = 1, PI_STATUS_IO_BUSY = 2\<rparr> Compat)
        [0x80800000, 0xFFFFFFFF, 0, 0, 0x800000, 0, 0, 0]) = Some [1024 * 1024]"
  by (simp add: run_simps pi_transfers_def)

text \<open>
  C10, amended. When \<open>(e & 0x1FFFFFFF) + TOTAL_RESERVED_SIZE > 8 MiB\<close>, the bound
  \<open>(8<<20) - (e & 0x1FFFFFFF) - TOTAL_RESERVED_SIZE\<close> is computed in unsigned 32-bit
  arithmetic and wraps to \<open>2^32 + 8 MiB - (e & 0x1FFFFFFF) - TOTAL_RESERVED_SIZE\<close>, which
  is at least \<open>0xE07F8001\<close>. Every nonzero declared size up to the wrapped bound, so every
  nonzero size up to \<open>0xE07F8001\<close>, is kept unchanged (no fallback), though it exceeds the
  memory available (\<open>8 MiB - (e & 0x1FFFFFFF) - TOTAL_RESERVED_SIZE\<close> over the integers,
  which is negative); a size above the wrapped bound is replaced by the 1 MiB fallback.
\<close>

theorem stage2_bound_wraps:
  assumes "run (stage2 c v) (e # s # rest) = Some t"
    and "8 * 1024 * 1024 < unat (e AND 0x1FFFFFFF) + nat TOTAL_RESERVED_SIZE"
  shows "unat (8 * 1024 * 1024 - (e AND 0x1FFFFFFF) - word_of_int TOTAL_RESERVED_SIZE :: u32) =
           2 ^ 32 + 8 * 1024 * 1024 - unat (e AND 0x1FFFFFFF) - nat TOTAL_RESERVED_SIZE \<and>
         0xE07F8001 \<le> 8 * 1024 * 1024 - (e AND 0x1FFFFFFF) - word_of_int TOTAL_RESERVED_SIZE \<and>
         (s \<noteq> 0 \<and> s \<le> 8 * 1024 * 1024 - (e AND 0x1FFFFFFF) - word_of_int TOTAL_RESERVED_SIZE \<longrightarrow>
            map (\<lambda>(ram, cart, n). n) (pi_transfers t) = [s]) \<and>
         (s \<noteq> 0 \<and> s \<le> 0xE07F8001 \<longrightarrow> map (\<lambda>(ram, cart, n). n) (pi_transfers t) = [s]) \<and>
         (s > 8 * 1024 * 1024 - (e AND 0x1FFFFFFF) - word_of_int TOTAL_RESERVED_SIZE \<longrightarrow>
            map (\<lambda>(ram, cart, n). n) (pi_transfers t) = [1024 * 1024]) \<and>
         8 * 1024 * 1024 - int (unat (e AND 0x1FFFFFFF)) - TOTAL_RESERVED_SIZE < int (unat s)"
proof -
  let ?x = "e AND 0x1FFFFFFF"
  have x: "?x \<le> 0x1FFFFFFF"
    by (rule word_and_le1)
  have w: "8 * 1024 * 1024 < unat ?x + 32768"
    using assms(2) by (simp add: TOTAL_RESERVED_SIZE_def LOADER_SIZE_def)
  have b: "unat (0x800000 - ?x - 0x8000) = 2 ^ 32 + 8 * 1024 * 1024 - unat ?x - 32768"
    by (rule wrapped_bound [OF x w])
  have lo: "0xE07F8001 \<le> 0x800000 - ?x - 0x8000"
    using x b by (simp add: word_le_nat_alt)
  have sz: "map (\<lambda>(ram, cart, n). n) (pi_transfers t) =
              [if s = 0 \<or> s > 0x800000 - ?x - 0x8000 then 0x100000 else s]"
    using assms(1) by (elim run_stage2_shape) (simp add: pi_transfers_stage2)
  have neg: "8 * 1024 * 1024 - int (unat ?x) - 32768 < int (unat s)"
    using w by linarith
  have "unat (0x800000 - ?x - 0x8000) = 2 ^ 32 + 8 * 1024 * 1024 - unat ?x - 32768 \<and>
        0xE07F8001 \<le> 0x800000 - ?x - 0x8000 \<and>
        (s \<noteq> 0 \<and> s \<le> 0x800000 - ?x - 0x8000 \<longrightarrow>
           map (\<lambda>(ram, cart, n). n) (pi_transfers t) = [s]) \<and>
        (s \<noteq> 0 \<and> s \<le> 0xE07F8001 \<longrightarrow> map (\<lambda>(ram, cart, n). n) (pi_transfers t) = [s]) \<and>
        (s > 0x800000 - ?x - 0x8000 \<longrightarrow>
           map (\<lambda>(ram, cart, n). n) (pi_transfers t) = [0x100000])"
    using b lo sz by auto
  with neg show ?thesis
    by (simp add: TOTAL_RESERVED_SIZE_def LOADER_SIZE_def)
qed

theorem stage2_bound_wraps_witness:
  "8 * 1024 * 1024 < unat (0x807FF000 AND 0x1FFFFFFF :: u32) + nat TOTAL_RESERVED_SIZE \<and>
   map_option (\<lambda>t. map (\<lambda>(ram, cart, n). n) (pi_transfers t))
     (run (stage2 \<lparr>PI_STATUS_DMA_BUSY = 1, PI_STATUS_IO_BUSY = 2\<rparr> Compat)
        [0x807FF000, 0x900000, 0, 0, 0x800000, 0, 0, 0]) = Some [0x900000] \<and>
   map_option (\<lambda>t. map (\<lambda>(ram, cart, n). n) (pi_transfers t))
     (run (stage2 \<lparr>PI_STATUS_DMA_BUSY = 1, PI_STATUS_IO_BUSY = 2\<rparr> Compat)
        [0x807FF000, 0xFFFFF000, 0, 0, 0x800000, 0, 0, 0]) = Some [1024 * 1024]"
proof -
  have h: "8 * 1024 * 1024 < unat (0x807FF000 AND 0x1FFFFFFF :: u32) + nat TOTAL_RESERVED_SIZE"
    by (simp add: TOTAL_RESERVED_SIZE_def LOADER_SIZE_def)
  have r: "run (stage2 \<lparr>PI_STATUS_DMA_BUSY = 1, PI_STATUS_IO_BUSY = 2\<rparr> Compat)
      [0x807FF000, 0x900000, 0, 0, 0x800000, 0, 0, 0] =
   Some [Load (Addr 0xB0000008) 0x807FF000, Load (Addr 0xB0000010) 0x900000,
         Load PI_STATUS 0,
         Store PI_DRAM_ADDR 0x807FF000, Store PI_CART_ADDR 0x10001000,
         Store PI_WR_LEN 0x8FFFFF, Load PI_STATUS 0, Rcp_reset,
         Load (Addr 0x80000318) 0x800000, Cop0_clear_cache,
         Load SP_DMA_FULL 0,
         Store SP_RSP_ADDR 0xA4001000, Store SP_DRAM_ADDR 0x7F8000, Store SP_WR_LEN 0x1F3FF,
         Load SP_DMA_FULL 0,
         Store SP_DRAM_ADDR 0x802000, Store SP_RSP_ADDR 0xA4000000, Store SP_RD_LEN 4095,
         Load SP_DMA_BUSY 0, Goto 0x807FF000]"
    by (simp add: run_simps)
  have r': "run (stage2 \<lparr>PI_STATUS_DMA_BUSY = 1, PI_STATUS_IO_BUSY = 2\<rparr> Compat)
      [0x807FF000, 0xFFFFF000, 0, 0, 0x800000, 0, 0, 0] =
   Some [Load (Addr 0xB0000008) 0x807FF000, Load (Addr 0xB0000010) 0xFFFFF000,
         Load PI_STATUS 0,
         Store PI_DRAM_ADDR 0x807FF000, Store PI_CART_ADDR 0x10001000,
         Store PI_WR_LEN 0xFFFFF, Load PI_STATUS 0, Rcp_reset,
         Load (Addr 0x80000318) 0x800000, Cop0_clear_cache,
         Load SP_DMA_FULL 0,
         Store SP_RSP_ADDR 0xA4001000, Store SP_DRAM_ADDR 0x7F8000, Store SP_WR_LEN 0x1F3FF,
         Load SP_DMA_FULL 0,
         Store SP_DRAM_ADDR 0x802000, Store SP_RSP_ADDR 0xA4000000, Store SP_RD_LEN 4095,
         Load SP_DMA_BUSY 0, Goto 0x807FF000]"
    by (simp add: run_simps)
  from stage2_bound_wraps [OF r h] stage2_bound_wraps [OF r' h] h r r' show ?thesis
    by (simp add: TOTAL_RESERVED_SIZE_def LOADER_SIZE_def)
qed

text \<open>
  C5. The operations of a run of \<^verbatim>\<open>stage2\<close> and \<^verbatim>\<open>stage3\<close> (its events other than
  loads) are the following, in this order and with nothing else. Normal variant: the load (the three
  stores that start the cartridge transfer), the RCP reset, the boot-complete
  notification, the cache reset, the clear of the reserved RAM region (the stores ending
  with \<^verbatim>\<open>SP_WR_LEN\<close>), the clear of scratch memory from offset \<open>0x10\<close> (the stores
  ending with \<^verbatim>\<open>SP_RD_LEN = 4096-16-1\<close>), the supervisory wait, the stack pointer, the
  jump. Compatibility variant: the same without the notification, the supervisory wait
  and the stack pointer, and with the clear of all 4096 bytes of scratch memory from
  offset 0. With engines that answer idle at once the run does return.
\<close>

theorem boot_order:
  assumes "run (stage2 c v) (e # s # rest) = Some t"
  shows "(\<exists>n memsize.
           Load (Addr (case v of Normal \<Rightarrow> 0xA4000000 | Compat \<Rightarrow> 0x80000318)) memsize \<in> set t \<and>
           operations t =
             [Store PI_DRAM_ADDR e, Store PI_CART_ADDR 0x10001000, Store PI_WR_LEN (n - 1),
              Rcp_reset] @
             (case v of
                Normal \<Rightarrow>
                  [Si_write 0x7FC 0x8,
                   Cop0_clear_cache,
                   Store SP_RSP_ADDR 0xA4001000,
                   Store SP_DRAM_ADDR (memsize - word_of_int TOTAL_RESERVED_SIZE),
                   Store SP_WR_LEN 0x1F3FF,
                   Store SP_DRAM_ADDR 0x00802000,
                   Store SP_RSP_ADDR 0xA4000010,
                   Store SP_RD_LEN (4096 - 16 - 1),
                   Si_wait,
                   Move_sp (0x80000000 + memsize - 0x10),
                   Goto e]
              | Compat \<Rightarrow>
                  [Cop0_clear_cache,
                   Store SP_RSP_ADDR 0xA4001000,
                   Store SP_DRAM_ADDR (memsize - word_of_int TOTAL_RESERVED_SIZE),
                   Store SP_WR_LEN 0x1F3FF,
                   Store SP_DRAM_ADDR 0x00802000,
                   Store SP_RSP_ADDR 0xA4000000,
                   Store SP_RD_LEN (4096 - 1),
                   Goto e])) \<and>
         run (stage2 c v) [e, s, 0, 0, m, 0, 0, 0] \<noteq> None"
proof -
  from assms obtain b1 i1 b2 i2 memsize f1 f2 g where
    t: "t = stage2_events c v e s b1 i1 b2 i2 @
            stage3_events TOTAL_RESERVED_SIZE v e memsize f1 f2 g"
    by (elim run_stage2_shape) simp
  let ?n = "if s = 0 \<or> s > 0x800000 - (e AND 0x1FFFFFFF) - 0x8000 then 0x100000 else s"
  have "Load (Addr (case v of Normal \<Rightarrow> 0xA4000000 | Compat \<Rightarrow> 0x80000318)) memsize \<in> set t"
    unfolding t by (simp add: stage3_events_def)
  moreover have "operations t =
      [Store PI_DRAM_ADDR e, Store PI_CART_ADDR 0x10001000, Store PI_WR_LEN (?n - 1), Rcp_reset] @
      operations (stage3_events TOTAL_RESERVED_SIZE v e memsize f1 f2 g)"
    unfolding t by (simp only: operations_append operations_stage2)
  ultimately have "\<exists>n memsize.
      Load (Addr (case v of Normal \<Rightarrow> 0xA4000000 | Compat \<Rightarrow> 0x80000318)) memsize \<in> set t \<and>
      operations t =
        [Store PI_DRAM_ADDR e, Store PI_CART_ADDR 0x10001000, Store PI_WR_LEN (n - 1),
         Rcp_reset] @
        (case v of
           Normal \<Rightarrow>
             [Si_write 0x7FC 0x8,
              Cop0_clear_cache,
              Store SP_RSP_ADDR 0xA4001000,
              Store SP_DRAM_ADDR (memsize - word_of_int TOTAL_RESERVED_SIZE),
              Store SP_WR_LEN 0x1F3FF,
              Store SP_DRAM_ADDR 0x00802000,
              Store SP_RSP_ADDR 0xA4000010,
              Store SP_RD_LEN (4096 - 16 - 1),
              Si_wait,
              Move_sp (0x80000000 + memsize - 0x10),
              Goto e]
         | Compat \<Rightarrow>
             [Cop0_clear_cache,
              Store SP_RSP_ADDR 0xA4001000,
              Store SP_DRAM_ADDR (memsize - word_of_int TOTAL_RESERVED_SIZE),
              Store SP_WR_LEN 0x1F3FF,
              Store SP_DRAM_ADDR 0x00802000,
              Store SP_RSP_ADDR 0xA4000000,
              Store SP_RD_LEN (4096 - 1),
              Goto e])"
    by (intro exI [of _ ?n] exI [of _ memsize])
       (simp add: operations_stage3 control_word split: variant.split)
  then show ?thesis
    by (simp add: run_stage2_at_once)
qed

theorem boot_order_witness:
  "map_option operations
     (run (stage2 \<lparr>PI_STATUS_DMA_BUSY = 1, PI_STATUS_IO_BUSY = 2\<rparr> Normal)
        [0x80000400, 0x1000, 1, 0, 2, 0, 0x800000, 1, 0, 0, 1, 1, 0]) =
   Some [Store PI_DRAM_ADDR 0x80000400, Store PI_CART_ADDR 0x10001000, Store PI_WR_LEN 0xFFF,
         Rcp_reset, Si_write 0x7FC 0x8, Cop0_clear_cache,
         Store SP_RSP_ADDR 0xA4001000, Store SP_DRAM_ADDR 0x7F8000, Store SP_WR_LEN 0x1F3FF,
         Store SP_DRAM_ADDR 0x00802000, Store SP_RSP_ADDR 0xA4000010, Store SP_RD_LEN 4079,
         Si_wait, Move_sp 0x807FFFF0, Goto 0x80000400] \<and>
   map_option operations
     (run (stage2 \<lparr>PI_STATUS_DMA_BUSY = 1, PI_STATUS_IO_BUSY = 2\<rparr> Compat)
        [0x80000400, 0x1000, 0, 0, 0x800000, 0, 0, 0]) =
   Some [Store PI_DRAM_ADDR 0x80000400, Store PI_CART_ADDR 0x10001000, Store PI_WR_LEN 0xFFF,
         Rcp_reset, Cop0_clear_cache,
         Store SP_RSP_ADDR 0xA4001000, Store SP_DRAM_ADDR 0x7F8000, Store SP_WR_LEN 0x1F3FF,
         Store SP_DRAM_ADDR 0x00802000, Store SP_RSP_ADDR 0xA4000000, Store SP_RD_LEN 4095,
         Goto 0x80000400]"
proof -
  have r': "run (stage2 \<lparr>PI_STATUS_DMA_BUSY = 1, PI_STATUS_IO_BUSY = 2\<rparr> Compat)
      [0x80000400, 0x1000, 0, 0, 0x800000, 0, 0, 0] =
   Some [Load (Addr 0xB0000008) 0x80000400, Load (Addr 0xB0000010) 0x1000,
         Load PI_STATUS 0,
         Store PI_DRAM_ADDR 0x80000400, Store PI_CART_ADDR 0x10001000,
         Store PI_WR_LEN 0xFFF, Load PI_STATUS 0, Rcp_reset,
         Load (Addr 0x80000318) 0x800000, Cop0_clear_cache,
         Load SP_DMA_FULL 0,
         Store SP_RSP_ADDR 0xA4001000, Store SP_DRAM_ADDR 0x7F8000, Store SP_WR_LEN 0x1F3FF,
         Load SP_DMA_FULL 0,
         Store SP_DRAM_ADDR 0x802000, Store SP_RSP_ADDR 0xA4000000, Store SP_RD_LEN 4095,
         Load SP_DMA_BUSY 0, Goto 0x80000400]"
    by (simp add: run_simps)
  have r: "run (stage2 \<lparr>PI_STATUS_DMA_BUSY = 1, PI_STATUS_IO_BUSY = 2\<rparr> Normal)
      [0x80000400, 0x1000, 1, 0, 2, 0, 0x800000, 1, 0, 0, 1, 1, 0] =
   Some [Load (Addr 0xB0000008) 0x80000400, Load (Addr 0xB0000010) 0x1000,
         Load PI_STATUS 1, Load PI_STATUS 0,
         Store PI_DRAM_ADDR 0x80000400, Store PI_CART_ADDR 0x10001000,
         Store PI_WR_LEN 0xFFF, Load PI_STATUS 2, Load PI_STATUS 0, Rcp_reset,
         Si_write 0x7FC 8, Load (Addr 0xA4000000) 0x800000, Cop0_clear_cache,
         Load SP_DMA_FULL 1, Load SP_DMA_FULL 0,
         Store SP_RSP_ADDR 0xA4001000, Store SP_DRAM_ADDR 0x7F8000, Store SP_WR_LEN 0x1F3FF,
         Load SP_DMA_FULL 0,
         Store SP_DRAM_ADDR 0x802000, Store SP_RSP_ADDR 0xA4000010, Store SP_RD_LEN 4079,
         Si_wait, Load SP_DMA_BUSY 1, Load SP_DMA_BUSY 1, Load SP_DMA_BUSY 0,
         Move_sp 0x807FFFF0, Goto 0x80000400]"
    by (simp add: run_simps)
  from boot_order [OF r] boot_order [OF r'] r r' show ?thesis
    by simp
qed

text \<open>
  C8. In the normal variant, with \<open>memsize\<close> the word \<^verbatim>\<open>stage3\<close> loads from the boot
  flags at \<open>0xA4000000\<close>, the stack pointer is set exactly once, to
  \<open>0x80000000 + memsize - 0x10\<close> (32-bit), whatever the entry address, and this is the
  last event before the jump. For \<open>memsize = 8*1024*1024\<close> and entry \<open>0x80000400\<close> it is
  \<open>0x807FFFF0\<close>. With an engine that answers idle at once the run does return.
\<close>

theorem stage3_stack_pointer:
  assumes "run (stage3 Normal e) (memsize # rest) = Some t"
  shows "take 2 t = [Si_write 0x7FC 0x8, Load (Addr 0xA4000000) memsize] \<and>
         filter is_Move_sp t = [Move_sp (0x80000000 + memsize - 0x10)] \<and>
         (\<exists>pre. t = pre @ [Move_sp (0x80000000 + memsize - 0x10), Goto e]) \<and>
         (memsize = 8 * 1024 * 1024 \<and> e = 0x80000400 \<longrightarrow>
            filter is_Move_sp t = [Move_sp 0x807FFFF0]) \<and>
         run (stage3 Normal e) [memsize, 0, 0, 0] \<noteq> None"
proof -
  from assms obtain f1 f2 g where
    t: "t = stage3_events TOTAL_RESERVED_SIZE Normal e memsize f1 f2 g"
    by (elim run_stage3_shape') simp
  have 1: "take 2 t = [Si_write 0x7FC 0x8, Load (Addr 0xA4000000) memsize]"
    unfolding t by (simp add: stage3_events_def)
  have 2: "filter is_Move_sp t = [Move_sp (0x80000000 + memsize - 0x10)]"
    unfolding t by (simp add: stage3_events_def polls_def)
  have 3: "\<exists>pre. t = pre @ [Move_sp (0x80000000 + memsize - 0x10), Goto e]"
    unfolding t stage3_events_def by (simp add: append_eq_append_conv2) 
  from 1 2 3 show ?thesis
    by (auto simp: run_stage3_at_once)
qed

theorem stage3_stack_pointer_witness:
  "map_option (filter is_Move_sp)
     (run (stage3 Normal 0x80000400) [8 * 1024 * 1024, 0, 0, 0]) = Some [Move_sp 0x807FFFF0]"
proof -
  have r: "run (stage3 Normal 0x80000400) [8 * 1024 * 1024, 0, 0, 0] =
   Some [Si_write 0x7FC 8, Load (Addr 0xA4000000) 0x800000, Cop0_clear_cache,
         Load SP_DMA_FULL 0,
         Store SP_RSP_ADDR 0xA4001000, Store SP_DRAM_ADDR 0x7F8000, Store SP_WR_LEN 0x1F3FF,
         Load SP_DMA_FULL 0,
         Store SP_DRAM_ADDR 0x802000, Store SP_RSP_ADDR 0xA4000010, Store SP_RD_LEN 4079,
         Si_wait, Load SP_DMA_BUSY 0, Move_sp 0x807FFFF0, Goto 0x80000400]"
    by (simp add: run_simps)
  from stage3_stack_pointer [OF r] r show ?thesis
    by simp
qed

text \<open>
  C7. A run of the normal variant of \<^verbatim>\<open>stage3\<close> performs exactly one \<^verbatim>\<open>si_write\<close>, of
  value \<open>0x8\<close> to offset \<open>0x7FC\<close>; it is the first event, the call of \<^verbatim>\<open>si_wait\<close>
  comes after it, and the jump is the last event, after both. With \<^verbatim>\<open>si_wait\<close> as the
  spec describes it, no completion signal is pending after the run, whatever was pending
  before. A run of the compatibility variant, of \<^verbatim>\<open>stage3\<close> alone or from \<^verbatim>\<open>stage2\<close>
  on, performs no \<^verbatim>\<open>si_write\<close>. With an engine that answers idle at once the run of
  either variant does return.
\<close>

theorem stage3_boot_complete_signal:
  "(run (stage3 Normal e) resp = Some t \<longrightarrow>
      filter is_Si_write t = [Si_write 0x7FC 0x8] \<and>
      (\<exists>t1 t2. t = Si_write 0x7FC 0x8 # t1 @ Si_wait # t2 @ [Goto e] \<and>
         Si_wait \<notin> set t2 \<and> (\<forall>x. Goto x \<notin> set t1 \<and> Goto x \<notin> set t2)) \<and>
      \<not> si_signal p t) \<and>
   (run (stage3 Compat e') resp' = Some t' \<longrightarrow> filter is_Si_write t' = []) \<and>
   (run (stage2 c Compat) resp'' = Some t'' \<longrightarrow> filter is_Si_write t'' = []) \<and>
   run (stage3 v e) [memsize, 0, 0, 0] \<noteq> None"
proof (intro conjI impI)
  assume "run (stage3 Normal e) resp = Some t"
  then obtain memsize f1 f2 g where
    t: "t = stage3_events TOTAL_RESERVED_SIZE Normal e memsize f1 f2 g"
    by (elim run_stage3_shape')
  show "filter is_Si_write t = [Si_write 0x7FC 0x8]"
    unfolding t by (simp add: stage3_events_def polls_def)
  show "\<not> si_signal p t"
    unfolding t by (simp add: stage3_events_def polls_def)
  let ?t1 = "[Load (Addr 0xA4000000) memsize, Cop0_clear_cache] @
     polls SP_DMA_FULL f1 0 @
     [Store SP_RSP_ADDR 0xA4001000,
      Store SP_DRAM_ADDR (memsize - word_of_int TOTAL_RESERVED_SIZE),
      Store SP_WR_LEN (word_of_int (push_bit 12 (drop_bit 10 TOTAL_RESERVED_SIZE - 1) OR 1023))] @
     polls SP_DMA_FULL f2 0 @
     [Store SP_DRAM_ADDR 0x00802000, Store SP_RSP_ADDR 0xA4000010, Store SP_RD_LEN 4079]"
  let ?t2 = "polls SP_DMA_BUSY g 0 @ [Move_sp (0x80000000 + memsize - 0x10)]"
  have "t = Si_write 0x7FC 0x8 # ?t1 @ Si_wait # ?t2 @ [Goto e]"
    unfolding t by (simp add: stage3_events_def)
  moreover have "Si_wait \<notin> set ?t2" "\<forall>x. Goto x \<notin> set ?t1 \<and> Goto x \<notin> set ?t2"
    by (auto simp: polls_def)
  ultimately show "\<exists>t1 t2. t = Si_write 0x7FC 0x8 # t1 @ Si_wait # t2 @ [Goto e] \<and>
         Si_wait \<notin> set t2 \<and> (\<forall>x. Goto x \<notin> set t1 \<and> Goto x \<notin> set t2)"
    by blast
next
  assume "run (stage3 Compat e') resp' = Some t'"
  then obtain memsize f1 f2 g where
    t: "t' = stage3_events TOTAL_RESERVED_SIZE Compat e' memsize f1 f2 g"
    by (elim run_stage3_shape')
  show "filter is_Si_write t' = []"
    unfolding t by (simp add: stage3_events_def polls_def)
next
  assume "run (stage2 c Compat) resp'' = Some t''"
  then obtain e s b1 i1 b2 i2 memsize f1 f2 g where
    t: "t'' = stage2_events c Compat e s b1 i1 b2 i2 @
             stage3_events TOTAL_RESERVED_SIZE Compat e memsize f1 f2 g"
    by (elim run_stage2_shape)
  show "filter is_Si_write t'' = []"
    unfolding t by (simp add: stage2_events_def stage3_events_def polls_def)
next
  show "run (stage3 v e) [memsize, 0, 0, 0] \<noteq> None"
    by (simp add: run_stage3_at_once)
qed

theorem stage3_boot_complete_signal_witness:
  "map_option (filter is_Si_write) (run (stage3 Normal 0x80000400) [0x800000, 0, 0, 0]) =
     Some [Si_write 0x7FC 0x8] \<and>
   map_option (si_signal True) (run (stage3 Normal 0x80000400) [0x800000, 0, 0, 0]) =
     Some False \<and>
   map_option (filter is_Si_write) (run (stage3 Compat 0x80000400) [0x800000, 0, 0, 0]) =
     Some [] \<and>
   map_option (filter is_Si_write)
     (run (stage2 \<lparr>PI_STATUS_DMA_BUSY = 1, PI_STATUS_IO_BUSY = 2\<rparr> Compat)
        [0x80000400, 0x1000, 0, 0, 0x800000, 0, 0, 0]) = Some []"
proof -
  have n: "run (stage3 Normal 0x80000400) [0x800000, 0, 0, 0] =
   Some [Si_write 0x7FC 8, Load (Addr 0xA4000000) 0x800000, Cop0_clear_cache,
         Load SP_DMA_FULL 0,
         Store SP_RSP_ADDR 0xA4001000, Store SP_DRAM_ADDR 0x7F8000, Store SP_WR_LEN 0x1F3FF,
         Load SP_DMA_FULL 0,
         Store SP_DRAM_ADDR 0x802000, Store SP_RSP_ADDR 0xA4000010, Store SP_RD_LEN 4079,
         Si_wait, Load SP_DMA_BUSY 0, Move_sp 0x807FFFF0, Goto 0x80000400]"
    by (simp add: run_simps)
  have c3: "run (stage3 Compat 0x80000400) [0x800000, 0, 0, 0] =
   Some [Load (Addr 0x80000318) 0x800000, Cop0_clear_cache,
         Load SP_DMA_FULL 0,
         Store SP_RSP_ADDR 0xA4001000, Store SP_DRAM_ADDR 0x7F8000, Store SP_WR_LEN 0x1F3FF,
         Load SP_DMA_FULL 0,
         Store SP_DRAM_ADDR 0x802000, Store SP_RSP_ADDR 0xA4000000, Store SP_RD_LEN 4095,
         Load SP_DMA_BUSY 0, Goto 0x80000400]"
    by (simp add: run_simps)
  have c2: "run (stage2 \<lparr>PI_STATUS_DMA_BUSY = 1, PI_STATUS_IO_BUSY = 2\<rparr> Compat)
      [0x80000400, 0x1000, 0, 0, 0x800000, 0, 0, 0] =
   Some [Load (Addr 0xB0000008) 0x80000400, Load (Addr 0xB0000010) 0x1000,
         Load PI_STATUS 0,
         Store PI_DRAM_ADDR 0x80000400, Store PI_CART_ADDR 0x10001000,
         Store PI_WR_LEN 0xFFF, Load PI_STATUS 0, Rcp_reset,
         Load (Addr 0x80000318) 0x800000, Cop0_clear_cache,
         Load SP_DMA_FULL 0,
         Store SP_RSP_ADDR 0xA4001000, Store SP_DRAM_ADDR 0x7F8000, Store SP_WR_LEN 0x1F3FF,
         Load SP_DMA_FULL 0,
         Store SP_DRAM_ADDR 0x802000, Store SP_RSP_ADDR 0xA4000000, Store SP_RD_LEN 4095,
         Load SP_DMA_BUSY 0, Goto 0x80000400]"
    by (simp add: run_simps)
  from stage3_boot_complete_signal [where p = True, THEN conjunct1, rule_format, OF n]
    stage3_boot_complete_signal [THEN conjunct2, THEN conjunct1, rule_format, OF c3]
    stage3_boot_complete_signal [THEN conjunct2, THEN conjunct2, THEN conjunct1, rule_format, OF c2]
    n c3 c2
  show ?thesis
    by simp
qed




text \<open>
  C6. \<^verbatim>\<open>TOTAL_RESERVED_SIZE\<close> is a multiple of 1024 and cleanup.c compiles with it; with
  a value that is not a multiple of 1024 the compilation fails with the diagnostic of the
  static assertion; whether \<^verbatim>\<open>stage3\<close> returns at run time does not depend on the
  value. The clear of the reserved region stores \<open>memsize - TOTAL_RESERVED_SIZE\<close> to
  \<^verbatim>\<open>SP_DRAM_ADDR\<close> and then \<open>((TOTAL_RESERVED_SIZE/1024 - 1) << 12) | (1024 - 1)\<close> to
  \<^verbatim>\<open>SP_WR_LEN\<close>, the only store to \<^verbatim>\<open>SP_WR_LEN\<close> of the run; read as (blocks,
  remainder minus one), this control word stands for \<^verbatim>\<open>TOTAL_RESERVED_SIZE\<close> bytes.
\<close>

theorem reserved_clear_control_word:
  "1024 dvd TOTAL_RESERVED_SIZE \<and>
   compile_cleanup TOTAL_RESERVED_SIZE v = Inr (stage3 v) \<and>
   (\<not> 1024 dvd trs \<longrightarrow>
      compile_cleanup trs v = Inl ''TOTAL_RESERVED_SIZE must be multiple of 1024'') \<and>
   (stage3_gen trs v e w = None) = (stage3_gen TOTAL_RESERVED_SIZE v e w = None) \<and>
   (run (stage3 v e) (memsize # rest) = Some t \<longrightarrow>
      (\<exists>t1 t2. t = t1 @
          [Store SP_DRAM_ADDR (memsize - word_of_int TOTAL_RESERVED_SIZE),
           Store SP_WR_LEN
             (push_bit 12 (word_of_int (TOTAL_RESERVED_SIZE div 1024) - 1) OR (1024 - 1))] @ t2 \<and>
          (\<forall>x. Store SP_WR_LEN x \<notin> set t1 \<and> Store SP_WR_LEN x \<notin> set t2))) \<and>
   dma_length (push_bit 12 (word_of_int (TOTAL_RESERVED_SIZE div 1024) - 1) OR (1024 - 1)) =
     nat TOTAL_RESERVED_SIZE"
proof (intro conjI impI)
  show "1024 dvd TOTAL_RESERVED_SIZE"
    by (simp add: TOTAL_RESERVED_SIZE_def LOADER_SIZE_def)
  then show "compile_cleanup TOTAL_RESERVED_SIZE v = Inr (stage3 v)"
    by (simp add: compile_cleanup_def smod_1024 stage3_def)
  show "compile_cleanup trs v = Inl ''TOTAL_RESERVED_SIZE must be multiple of 1024''"
    if "\<not> 1024 dvd trs"
    using that by (simp add: compile_cleanup_def smod_1024)
  show "(stage3_gen trs v e w = None) = (stage3_gen TOTAL_RESERVED_SIZE v e w = None)"
    by (rule returns_any_size)
  show "dma_length (push_bit 12 (word_of_int (TOTAL_RESERVED_SIZE div 1024) - 1) OR (1024 - 1)) =
          nat TOTAL_RESERVED_SIZE"
    unfolding claimed_word
    by (simp add: dma_length_words TOTAL_RESERVED_SIZE_def LOADER_SIZE_def)
next
  assume "run (stage3 v e) (memsize # rest) = Some t"
  then obtain f1 f2 g where
    t: "t = stage3_events TOTAL_RESERVED_SIZE v e memsize f1 f2 g"
    by (elim run_stage3_shape') simp
  let ?t1 = "(case v of Normal \<Rightarrow> [Si_write 0x7FC 0x8] | Compat \<Rightarrow> []) @
     [Load (Addr (case v of Normal \<Rightarrow> 0xA4000000 | Compat \<Rightarrow> 0x80000318)) memsize,
      Cop0_clear_cache] @
     polls SP_DMA_FULL f1 0 @ [Store SP_RSP_ADDR 0xA4001000]"
  let ?t2 = "polls SP_DMA_FULL f2 0 @
     [Store SP_DRAM_ADDR 0x00802000] @
     (case v of
        Normal \<Rightarrow> [Store SP_RSP_ADDR 0xA4000010, Store SP_RD_LEN 4079, Si_wait]
      | Compat \<Rightarrow> [Store SP_RSP_ADDR 0xA4000000, Store SP_RD_LEN 4095]) @
     polls SP_DMA_BUSY g 0 @
     (case v of Normal \<Rightarrow> [Move_sp (0x80000000 + memsize - 0x10)] | Compat \<Rightarrow> []) @
     [Goto e]"
  have "t = ?t1 @
          [Store SP_DRAM_ADDR (memsize - word_of_int TOTAL_RESERVED_SIZE),
           Store SP_WR_LEN
             (push_bit 12 (word_of_int (TOTAL_RESERVED_SIZE div 1024) - 1) OR (1024 - 1))] @ ?t2"
    unfolding t claimed_word by (simp add: stage3_events_def control_word)
  moreover have "\<forall>x. Store SP_WR_LEN x \<notin> set ?t1 \<and> Store SP_WR_LEN x \<notin> set ?t2"
    by (auto simp: polls_def split: variant.splits)
  ultimately show "\<exists>t1 t2. t = t1 @
          [Store SP_DRAM_ADDR (memsize - word_of_int TOTAL_RESERVED_SIZE),
           Store SP_WR_LEN
             (push_bit 12 (word_of_int (TOTAL_RESERVED_SIZE div 1024) - 1) OR (1024 - 1))] @ t2 \<and>
          (\<forall>x. Store SP_WR_LEN x \<notin> set t1 \<and> Store SP_WR_LEN x \<notin> set t2)"
    by blast
qed

theorem reserved_clear_control_word_witness:
  "\<not> 1024 dvd (1000 :: int) \<and>
   compile_cleanup 1000 Normal = Inl ''TOTAL_RESERVED_SIZE must be multiple of 1024'' \<and>
   map_option
     (\<lambda>t. \<exists>t1 t2. t = t1 @ [Store SP_DRAM_ADDR 0x7F8000, Store SP_WR_LEN 0x1F3FF] @ t2 \<and>
        (\<forall>x. Store SP_WR_LEN x \<notin> set t1 \<and> Store SP_WR_LEN x \<notin> set t2))
     (run (stage3 Normal 0x80000400) [0x800000, 0, 0, 0]) = Some True"
proof -
  have d: "\<not> 1024 dvd (1000 :: int)"
    by simp
  have r: "run (stage3 Normal 0x80000400) [0x800000, 0, 0, 0] =
   Some [Si_write 0x7FC 8, Load (Addr 0xA4000000) 0x800000, Cop0_clear_cache,
         Load SP_DMA_FULL 0,
         Store SP_RSP_ADDR 0xA4001000, Store SP_DRAM_ADDR 0x7F8000, Store SP_WR_LEN 0x1F3FF,
         Load SP_DMA_FULL 0,
         Store SP_DRAM_ADDR 0x802000, Store SP_RSP_ADDR 0xA4000010, Store SP_RD_LEN 4079,
         Si_wait, Load SP_DMA_BUSY 0, Move_sp 0x807FFFF0, Goto 0x80000400]"
    by (simp add: run_simps)
  from reserved_clear_control_word [where trs = 1000 and v = Normal and e = "0x80000400"
      and memsize = "0x800000" and rest = "[0, 0, 0]"] d r
  show ?thesis
    by (simp add: claimed_word TOTAL_RESERVED_SIZE_def LOADER_SIZE_def)
qed

text \<open>
  C3. With the coprocessor-bus engine as the spec describes \<^verbatim>\<open>scratch_clear_dma\<close>, a
  source that holds the clear value \<open>z\<close>, and any memory \<open>m\<close> before: after a run of
  \<^verbatim>\<open>stage3\<close> that loaded \<open>memsize\<close>, every byte of the \<^verbatim>\<open>TOTAL_RESERVED_SIZE\<close> bytes of
  RAM below \<open>memsize\<close> is \<open>z\<close>; in the compatibility variant every byte of the 4096 bytes
  of scratch memory is \<open>z\<close>; in the normal variant every byte of scratch memory from
  offset 16 on is \<open>z\<close> and the first 16 bytes are as they were in \<open>m\<close>. With an engine
  that answers idle at once the run does return.
\<close>

theorem stage3_clears:
  assumes "run (stage3 v e) (memsize # rest) = Some t"
  shows "(\<forall>i < nat TOTAL_RESERVED_SIZE.
            rdram (memory_after z m t) (memsize - word_of_int TOTAL_RESERVED_SIZE + of_nat i) = z) \<and>
         (\<forall>i < 4096. (v = Normal \<longrightarrow> 16 \<le> i) \<longrightarrow>
            scratch (memory_after z m t) (0xA4000000 + of_nat i) = z) \<and>
         (v = Normal \<longrightarrow>
            (\<forall>i < 16. scratch (memory_after z m t) (0xA4000000 + of_nat i) =
                       scratch m (0xA4000000 + of_nat i))) \<and>
         run (stage3 v e) [memsize, 0, 0, 0] \<noteq> None"
proof -
  from assms obtain f1 f2 g where
    t: "t = stage3_events TOTAL_RESERVED_SIZE v e memsize f1 f2 g"
    by (elim run_stage3_shape') simp
  show ?thesis
    unfolding t memory_after_stage3
    by (cases v)
       (simp_all add: fill_inside fill_scratch_normal run_stage3_at_once
          TOTAL_RESERVED_SIZE_def LOADER_SIZE_def)
qed

theorem stage3_clears_witness:
  "map_option
     (\<lambda>t. let m' = memory_after 0
                      \<lparr>rdram = \<lambda>a. 0xFF, scratch = \<lambda>a. 0xAB, dram_addr = 0, rsp_addr = 0\<rparr> t
          in [rdram m' 0x7F7FFF, rdram m' 0x7F8000, rdram m' 0x7FFFFF, rdram m' 0x800000,
              scratch m' 0xA4000000, scratch m' 0xA400000F, scratch m' 0xA4000010,
              scratch m' 0xA4000FFF])
     (run (stage3 Normal 0x80000400) [0x800000, 0, 0, 0]) =
   Some [0xFF, 0, 0, 0xFF, 0xAB, 0xAB, 0, 0] \<and>
   map_option
     (\<lambda>t. let m' = memory_after 0
                      \<lparr>rdram = \<lambda>a. 0xFF, scratch = \<lambda>a. 0xAB, dram_addr = 0, rsp_addr = 0\<rparr> t
          in [rdram m' 0x7F8000, scratch m' 0xA4000000, scratch m' 0xA400000F,
              scratch m' 0xA4000FFF])
     (run (stage3 Compat 0x80000400) [0x800000, 0, 0, 0]) =
   Some [0, 0, 0, 0]"
proof -
  have r: "run (stage3 Normal 0x80000400) [0x800000, 0, 0, 0] =
   Some [Si_write 0x7FC 8, Load (Addr 0xA4000000) 0x800000, Cop0_clear_cache,
         Load SP_DMA_FULL 0,
         Store SP_RSP_ADDR 0xA4001000, Store SP_DRAM_ADDR 0x7F8000, Store SP_WR_LEN 0x1F3FF,
         Load SP_DMA_FULL 0,
         Store SP_DRAM_ADDR 0x802000, Store SP_RSP_ADDR 0xA4000010, Store SP_RD_LEN 4079,
         Si_wait, Load SP_DMA_BUSY 0, Move_sp 0x807FFFF0, Goto 0x80000400]"
    by (simp add: run_simps)
  have r': "run (stage3 Compat 0x80000400) [0x800000, 0, 0, 0] =
   Some [Load (Addr 0x80000318) 0x800000, Cop0_clear_cache,
         Load SP_DMA_FULL 0,
         Store SP_RSP_ADDR 0xA4001000, Store SP_DRAM_ADDR 0x7F8000, Store SP_WR_LEN 0x1F3FF,
         Load SP_DMA_FULL 0,
         Store SP_DRAM_ADDR 0x802000, Store SP_RSP_ADDR 0xA4000000, Store SP_RD_LEN 4095,
         Load SP_DMA_BUSY 0, Goto 0x80000400]"
    by (simp add: run_simps)
  from stage3_clears [OF r, of 0 "\<lparr>rdram = \<lambda>a. 0xFF, scratch = \<lambda>a. 0xAB, dram_addr = 0, rsp_addr = 0\<rparr>"]
    stage3_clears [OF r', of 0 "\<lparr>rdram = \<lambda>a. 0xFF, scratch = \<lambda>a. 0xAB, dram_addr = 0, rsp_addr = 0\<rparr>"]
    r r'
  show ?thesis
    by (simp add: dma_length_words fill_def unsigned_minus_1_eq_mask mask_eq_exp_minus_1)
qed

end
